theory Spec2Isabelle
  imports Complex_Main "HOL-Library.AList" "HOL-Library.Sublist"
begin

section \<open>The classifier controller of \<open>algos/classification/classifier.py\<close>\<close>

text \<open>
  The file is orchestration code around a numerical framework. The embedding keeps the
  control flow of the source (which framework routine is called, in which order, under
  which condition, and what happens to the object's own fields) and takes the numerical
  routines of the framework as the fields of a record of functions.
\<close>

subsection \<open>Values\<close>

text \<open>
  A floating-point scalar. Only the comparison with zero is interpreted here; every
  arithmetic operation on such values is a routine of the framework.
\<close>

datatype pyfloat = Finite real | PosInf | NegInf | NaN

text \<open>The comparison \<^verbatim>\<open>v > 0.\<close> of one element; it is false for a NaN.\<close>

fun gt_zero :: "pyfloat \<Rightarrow> bool" where
  "gt_zero (Finite r) = (0 < r)"
| "gt_zero PosInf = True"
| "gt_zero NegInf = False"
| "gt_zero NaN = False"

text \<open>\<^verbatim>\<open>(pred_y > 0.).long()\<close>: elementwise, True becomes 1 and False becomes 0.\<close>

definition gt_zero_long :: "pyfloat list \<Rightarrow> int list" where
  "gt_zero_long pred_y = map (\<lambda>v. if gt_zero v then 1 else 0) pred_y"

datatype error =
    ZeroDivisionError
  | AttributeError string
  | FileNotFoundError "string list"
  | RuntimeError
  | ConnectionError

text \<open>What a call leaves behind: the state it returns with, or the exception it raises
  together with the state the object is in at that moment.\<close>

datatype 'st outcome = Return 'st | Raise error 'st

fun and_then :: "'st outcome \<Rightarrow> ('st \<Rightarrow> 'st outcome) \<Rightarrow> 'st outcome" where
  "and_then (Return s) f = f s"
| "and_then (Raise e s) f = Raise e s"

fun final_state :: "'st outcome \<Rightarrow> 'st" where
  "final_state (Return s) = s"
| "final_state (Raise e s) = s"

fun returned :: "'st outcome \<Rightarrow> bool" where
  "returned (Return s) = True"
| "returned (Raise e s) = False"

subsection \<open>The module-level flag \<open>DEBUG\<close>\<close>

text \<open>
  \<^verbatim>\<open>int(s)\<close> on a string: surrounding whitespace is stripped, one sign is allowed, then
  decimal digits, where single underscores may separate digits. Anything else is a
  ValueError, here \<open>None\<close>. (Characters are bytes; the non-ASCII digits and spaces that
  Python also accepts are outside this model.)
\<close>

definition is_space :: "char \<Rightarrow> bool" where
  "is_space c = (c \<in> set [CHR '' '', CHR 0x09, CHR 0x0A, CHR 0x0B, CHR 0x0C, CHR 0x0D,
                          CHR 0x1C, CHR 0x1D, CHR 0x1E, CHR 0x1F])"

definition strip :: "string \<Rightarrow> string" where
  "strip s = rev (dropWhile is_space (rev (dropWhile is_space s)))"

definition digit_val :: "char \<Rightarrow> int option" where
  "digit_val c = map_of (zip ''0123456789'' [0, 1, 2, 3, 4, 5, 6, 7, 8, 9]) c"

fun parse_digits :: "int \<Rightarrow> string \<Rightarrow> int option" where
  "parse_digits acc [] = Some acc"
| "parse_digits acc (c # cs) =
     (case digit_val c of
        Some d \<Rightarrow> parse_digits (10 * acc + d) cs
      | None \<Rightarrow>
          (if c = CHR ''_'' then
             (case cs of
                [] \<Rightarrow> None
              | c' # _ \<Rightarrow> (if digit_val c' = None then None else parse_digits acc cs))
           else None))"

definition py_int :: "string \<Rightarrow> int option" where
  "py_int s =
     (let t = strip s;
          (sgn, body) =
            (case t of
               [] \<Rightarrow> (1, [])
             | c # r \<Rightarrow> if c = CHR ''+'' then (1, r) else if c = CHR ''-'' then (- 1, r) else (1, t))
      in case body of
           [] \<Rightarrow> None
         | c # _ \<Rightarrow> (if digit_val c = None then None else map_option (\<lambda>n. sgn * n) (parse_digits 0 body)))"

text \<open>\<^verbatim>\<open>np.clip(v, a_min=lo, a_max=hi)\<close> on an integer.\<close>

definition np_clip :: "int \<Rightarrow> int \<Rightarrow> int \<Rightarrow> int" where
  "np_clip v a_min a_max = min (max v a_min) a_max"

text \<open>
  Lines 22 to 26. The argument is the value of the environment variable \<^verbatim>\<open>DEBUG_LVL\<close>,
  \<open>None\<close> when it is unset (the default is then the integer 0).
\<close>

definition debug_lvl :: "string option \<Rightarrow> int" where
  "debug_lvl env =
     (case env of
        None \<Rightarrow> np_clip 0 0 3
      | Some s \<Rightarrow> (case py_int s of Some v \<Rightarrow> np_clip v 0 3 | None \<Rightarrow> 0))"

definition DEBUG :: "string option \<Rightarrow> bool" where
  "DEBUG env = (debug_lvl env \<ge> 2)"

subsection \<open>The paired iteration of \<open>train\<close>\<close>

text \<open>
  \<^verbatim>\<open>itertools.chain.from_iterable(itertools.repeat(val_dataloader))\<close>. The state of the
  chain is its active iterator, if any: \<open>None\<close> before the first element is asked for
  and after an iterator is exhausted. Asking for the next element takes the next
  iterable of \<^verbatim>\<open>repeat\<close>, which is always the validation loader, iterates it afresh, and
  goes on to the next iterable when the active one is exhausted. With a loader that
  yields nothing this search does not end: the result \<open>None\<close> of \<open>chain_next\<close> stands for
  not returning.
\<close>

partial_function (option)
  chain_next :: "'b list \<Rightarrow> 'b list option \<Rightarrow> ('b \<times> 'b list option) option"
where
  "chain_next val_dataloader active =
     (case active of
        None \<Rightarrow> chain_next val_dataloader (Some val_dataloader)
      | Some [] \<Rightarrow> chain_next val_dataloader None
      | Some (v # rest) \<Rightarrow> Some (v, Some rest))"

declare chain_next.simps [code]

subsection \<open>Configuration, object and environment\<close>

record hps =
  lr :: real
  clip_norm :: real
  acc_grad_steps :: int
  eval_every :: int
  fp16 :: bool
  cuda :: bool
  backbone :: string
  pretrained_w_imagenet :: bool
  num_classes :: int

text \<open>\<^verbatim>\<open>self.ctx\<close>: autocast to half or single precision on an accelerator, no context otherwise.\<close>

datatype ctx = Autocast bool | Nullcontext

text \<open>A state dictionary: tensors under their names, in order.\<close>

type_synonym 't state_dict = "(string \<times> 't) list"

type_synonym metrics = "(string \<times> pyfloat) list"

datatype wval = Scalar pyfloat | Count int

type_synonym wandb_dict = "(string \<times> wval) list"

type_synonym path = "string list"

text \<open>
  The calls that have an effect outside the method, as they appear in the trace: the
  routines of the framework that mutate the model, the optimizer or the scaler, and the
  call of \<^verbatim>\<open>wandb.log\<close> for a phase.
\<close>

datatype call =
    Backward
  | Unscale
  | ClipGradNorm real
  | ScalerStep
  | ScalerUpdate
  | ZeroGrad
  | ModelEval
  | ModelTrain
  | WandbLog string

datatype log_msg = ClipNormDisabled real | ModuleInfo string

text \<open>
  The collaborators the file calls into. \<open>model_call\<close> is the forward pass of the model
  (it depends on the mode of the model, on the precision context it runs under and on
  the parameters); \<open>tensor_div\<close> is the division of a loss tensor by a number;
  \<open>backward\<close> is \<^verbatim>\<open>scaler.scale(loss).backward()\<close>, which adds to the gradients;
  \<open>wandb_log\<close> says whether the dashboard accepts a record with its step; when it does
  not, the call raises.
\<close>

record ('x, 'y, 't, 'o, 's) framework =
  model_call :: "bool \<Rightarrow> ctx \<Rightarrow> 't state_dict \<Rightarrow> 'x \<Rightarrow> pyfloat list"
  criterion :: "pyfloat list \<Rightarrow> 'y \<Rightarrow> pyfloat"
  tensor_div :: "pyfloat \<Rightarrow> int \<Rightarrow> pyfloat"
  backward :: "'s \<Rightarrow> bool \<Rightarrow> ctx \<Rightarrow> 't state_dict \<Rightarrow> 'x \<Rightarrow> 'y \<Rightarrow> int \<Rightarrow> 't state_dict \<Rightarrow> 't state_dict"
  gs_unscale :: "'s \<Rightarrow> 'o \<Rightarrow> 't state_dict \<Rightarrow> 's \<times> 't state_dict"
  clip_grad_norm :: "real \<Rightarrow> 't state_dict \<Rightarrow> 't state_dict"
  gs_step :: "'s \<Rightarrow> 'o \<Rightarrow> 't state_dict \<Rightarrow> 't state_dict \<Rightarrow> 'o \<times> 't state_dict"
  gs_update :: "'s \<Rightarrow> 't state_dict \<Rightarrow> 's"
  zero_grad :: "'t state_dict \<Rightarrow> 't state_dict"
  adam :: "'t state_dict \<Rightarrow> real \<Rightarrow> 'o"
  grad_scaler :: "bool \<Rightarrow> 's"
  compute_classif_eval_metrics :: "'y \<Rightarrow> int list \<Rightarrow> metrics"
  wandb_log :: "wandb_dict \<Rightarrow> int \<Rightarrow> bool"

text \<open>
  The \<^verbatim>\<open>Classifier\<close> object. \<^verbatim>\<open>self.model\<close> is its mode flag, its state dictionary and
  the gradients accumulated on its parameters; \<^verbatim>\<open>self.criterion\<close> has no state.
\<close>

record ('t, 'o, 's) classifier =
  device :: string
  hps :: hps
  iters_so_far :: int
  epochs_so_far :: int
  training :: bool
  params :: "'t state_dict"
  grads :: "'t state_dict"
  opt :: 'o
  ctx :: ctx
  scaler :: 's

text \<open>
  What lies outside the object: the checkpoint files, the records the dashboard has
  accepted (each with its step), the lines of the logger, and the trace of the mutating
  framework calls, each stamped with \<open>iters_so_far\<close> at the time of the call.
\<close>

record 't world =
  files :: "path \<rightharpoonup> 't state_dict"
  dash :: "(wandb_dict \<times> int) list"
  logs :: "log_msg list"
  calls :: "(int \<times> call) list"

type_synonym ('t, 'o, 's) state = "'t world \<times> ('t, 'o, 's) classifier"

subsection \<open>Construction\<close>

text \<open>
  \<^verbatim>\<open>__init__\<close>. The model built by \<^verbatim>\<open>ClassifierModelTenChan\<close> is an argument (its
  initial state dictionary \<open>model0\<close>): that module is not part of the file.
\<close>

definition init ::
  "('x, 'y, 't, 'o, 's) framework \<Rightarrow> string \<Rightarrow> hps \<Rightarrow> 't state_dict \<Rightarrow> 't world
     \<Rightarrow> ('t, 'o, 's) state"
where
  "init fw dev h model0 w =
     (let w1 = (if clip_norm h \<le> 0
                then w\<lparr>logs := logs w @ [ClipNormDisabled (clip_norm h)]\<rparr> else w);
          c = \<lparr>device = dev, hps = h, iters_so_far = 0, epochs_so_far = 0,
               training = True, params = model0, grads = [],
               opt = adam fw model0 (lr h),
               ctx = (if cuda h then Autocast (fp16 h) else Nullcontext),
               scaler = grad_scaler fw (fp16 h)\<rparr>
      in (w1\<lparr>logs := logs w1 @ [ModuleInfo ''classifier_model'']\<rparr>, c))"

subsection \<open>Loss and dashboard\<close>

text \<open>\<^verbatim>\<open>compute_loss\<close>; \<open>cx\<close> is the precision context the call runs under.\<close>

definition compute_loss ::
  "('x, 'y, 't, 'o, 's) framework \<Rightarrow> ctx \<Rightarrow> 'x \<Rightarrow> 'y \<Rightarrow> ('t, 'o, 's) classifier
     \<Rightarrow> metrics \<times> pyfloat \<times> pyfloat list"
where
  "compute_loss fw cx x true_y c =
     (let pred_y = model_call fw (training c) cx (params c) x;
          loss = criterion fw pred_y true_y;
          metrics = [(''loss'', loss)]
      in (metrics, loss, pred_y))"

fun note_call :: "call \<Rightarrow> ('t, 'o, 's) state \<Rightarrow> ('t, 'o, 's) state" where
  "note_call k (w, c) = (w\<lparr>calls := calls w @ [(iters_so_far c, k)]\<rparr>, c)"

text \<open>Lines 72 and 73: the record built from the metrics, the phase and the epoch count.\<close>

definition wandb_dict_of :: "metrics \<Rightarrow> string \<Rightarrow> int \<Rightarrow> wandb_dict" where
  "wandb_dict_of metrics mode epochs =
     AList.update ''epoch'' (Count epochs)
       (foldl (\<lambda>d (k, v). AList.update (mode @ ''/'' @ k) (Scalar v) d) [] metrics)"

text \<open>\<^verbatim>\<open>send_to_dash\<close>: a failure of the dashboard is not caught.\<close>

fun send_to_dash ::
  "('x, 'y, 't, 'o, 's) framework \<Rightarrow> metrics \<Rightarrow> string \<Rightarrow> ('t, 'o, 's) state
     \<Rightarrow> ('t, 'o, 's) state outcome"
where
  "send_to_dash fw metrics mode (w, c) =
     (let wandb_dict = wandb_dict_of metrics mode (epochs_so_far c);
          (w1, c1) = note_call (WandbLog mode) (w, c)
      in if wandb_log fw wandb_dict (iters_so_far c1)
         then Return (w1\<lparr>dash := dash w1 @ [(wandb_dict, iters_so_far c1)]\<rparr>, c1)
         else Raise ConnectionError (w1, c1))"

subsection \<open>The framework calls, as steps on the state\<close>

text \<open>\<^verbatim>\<open>self.scaler.scale(t_loss).backward()\<close>, the loss being that of \<open>(x, true_y)\<close>
  under \<^verbatim>\<open>self.ctx\<close>, divided by \<open>acc_grad_steps\<close>.\<close>

fun do_backward ::
  "('x, 'y, 't, 'o, 's) framework \<Rightarrow> 'x \<Rightarrow> 'y \<Rightarrow> ('t, 'o, 's) state \<Rightarrow> ('t, 'o, 's) state"
where
  "do_backward fw x true_y (w, c) =
     note_call Backward
       (w, c\<lparr>grads := backward fw (scaler c) (training c) (ctx c) (params c) x true_y
                        (acc_grad_steps (hps c)) (grads c)\<rparr>)"

fun do_unscale :: "('x, 'y, 't, 'o, 's) framework \<Rightarrow> ('t, 'o, 's) state \<Rightarrow> ('t, 'o, 's) state" where
  "do_unscale fw (w, c) =
     (case gs_unscale fw (scaler c) (opt c) (grads c) of
        (sc, g) \<Rightarrow> note_call Unscale (w, c\<lparr>scaler := sc, grads := g\<rparr>))"

fun do_clip_grad_norm ::
  "('x, 'y, 't, 'o, 's) framework \<Rightarrow> ('t, 'o, 's) state \<Rightarrow> ('t, 'o, 's) state"
where
  "do_clip_grad_norm fw (w, c) =
     note_call (ClipGradNorm (clip_norm (hps c)))
       (w, c\<lparr>grads := clip_grad_norm fw (clip_norm (hps c)) (grads c)\<rparr>)"

fun do_scaler_step ::
  "('x, 'y, 't, 'o, 's) framework \<Rightarrow> ('t, 'o, 's) state \<Rightarrow> ('t, 'o, 's) state"
where
  "do_scaler_step fw (w, c) =
     (case gs_step fw (scaler c) (opt c) (grads c) (params c) of
        (ob, p) \<Rightarrow> note_call ScalerStep (w, c\<lparr>opt := ob, params := p\<rparr>))"

fun do_scaler_update ::
  "('x, 'y, 't, 'o, 's) framework \<Rightarrow> ('t, 'o, 's) state \<Rightarrow> ('t, 'o, 's) state"
where
  "do_scaler_update fw (w, c) =
     note_call ScalerUpdate (w, c\<lparr>scaler := gs_update fw (scaler c) (grads c)\<rparr>)"

fun do_zero_grad ::
  "('x, 'y, 't, 'o, 's) framework \<Rightarrow> ('t, 'o, 's) state \<Rightarrow> ('t, 'o, 's) state"
where
  "do_zero_grad fw (w, c) = note_call ZeroGrad (w, c\<lparr>grads := zero_grad fw (grads c)\<rparr>)"

fun model_eval :: "('t, 'o, 's) state \<Rightarrow> ('t, 'o, 's) state" where
  "model_eval (w, c) = note_call ModelEval (w, c\<lparr>training := False\<rparr>)"

fun model_train :: "('t, 'o, 's) state \<Rightarrow> ('t, 'o, 's) state" where
  "model_train (w, c) = note_call ModelTrain (w, c\<lparr>training := True\<rparr>)"

subsection \<open>\<open>train\<close>\<close>

text \<open>Lines 100 to 109: the block guarded by the accumulation condition.\<close>

definition optimizer_step ::
  "('x, 'y, 't, 'o, 's) framework \<Rightarrow> metrics \<Rightarrow> ('t, 'o, 's) state \<Rightarrow> ('t, 'o, 's) state outcome"
where
  "optimizer_step fw t_metrics s =
     (let s1 = (if clip_norm (hps (snd s)) > 0
                then do_clip_grad_norm fw (do_unscale fw s) else s);
          s2 = do_scaler_step fw s1;
          s3 = do_scaler_update fw s2;
          s4 = do_zero_grad fw s3
      in send_to_dash fw t_metrics ''train'' s4)"

text \<open>Lines 113 to 133: the block guarded by the evaluation condition. The forward pass
  runs outside \<^verbatim>\<open>self.ctx\<close>.\<close>

definition val_block ::
  "('x, 'y, 't, 'o, 's) framework \<Rightarrow> 'x \<Rightarrow> 'y \<Rightarrow> ('t, 'o, 's) state \<Rightarrow> ('t, 'o, 's) state outcome"
where
  "val_block fw v_x v_true_y s =
     (let s1 = model_eval s;
          (v_metrics, _, v_pred_y) = compute_loss fw Nullcontext v_x v_true_y (snd s1);
          v_pred_y = gt_zero_long v_pred_y;
          v_metrics = foldl (\<lambda>d (k, v). AList.update k v d) v_metrics
                        (compute_classif_eval_metrics fw v_true_y v_pred_y)
      in and_then (send_to_dash fw v_metrics ''val'' s1) (\<lambda>s2. Return (model_train s2)))"

text \<open>\<^verbatim>\<open>self.iters_so_far += 1\<close>.\<close>

definition incr_iters :: "('t, 'o, 's) state \<Rightarrow> ('t, 'o, 's) state" where
  "incr_iters s = (fst s, (snd s)\<lparr>iters_so_far := iters_so_far (snd s) + 1\<rparr>)"

text \<open>
  The body of the loop at index \<open>i\<close>, where \<open>n\<close> is \<^verbatim>\<open>len(train_dataloader)\<close>. The division
  \<^verbatim>\<open>t_loss /= acc_grad_steps\<close> is done in place on the tensor that \<^verbatim>\<open>t_metrics\<close> holds
  under \<^verbatim>\<open>'loss'\<close>, so the published loss is the divided one. The remainder by zero
  raises. The debug branch reads \<^verbatim>\<open>self.scheduler\<close>, an attribute that no line of the
  file sets.
\<close>

definition train_body ::
  "('x, 'y, 't, 'o, 's) framework \<Rightarrow> bool \<Rightarrow> int \<Rightarrow> int \<Rightarrow> 'x \<times> 'y \<Rightarrow> 'x \<times> 'y
     \<Rightarrow> ('t, 'o, 's) state \<Rightarrow> ('t, 'o, 's) state outcome"
where
  "train_body fw dbg n i t v s =
     (let (t_x, t_true_y) = t;
          (v_x, v_true_y) = v;
          (t_metrics, t_loss, _) = compute_loss fw (ctx (snd s)) t_x t_true_y (snd s);
          t_loss = tensor_div fw t_loss (acc_grad_steps (hps (snd s)));
          t_metrics = AList.update ''loss'' t_loss t_metrics;
          s1 = do_backward fw t_x t_true_y s
      in if acc_grad_steps (hps (snd s1)) = 0 then Raise ZeroDivisionError s1
         else
           and_then
             (if (i + 1) mod acc_grad_steps (hps (snd s1)) = 0 \<or> i + 1 = n
              then optimizer_step fw t_metrics s1 else Return s1)
             (\<lambda>s2.
                if eval_every (hps (snd s2)) = 0 then Raise ZeroDivisionError s2
                else
                  and_then
                    (if (i + 1) mod eval_every (hps (snd s2)) = 0 \<or> i + 1 = n
                     then val_block fw v_x v_true_y s2 else Return s2)
                    (\<lambda>s3.
                       if dbg then Raise (AttributeError ''scheduler'') s3
                       else Return (incr_iters s3))))"

text \<open>
  The loop over \<^verbatim>\<open>enumerate(zip(tqdm(train_dataloader), chain, strict=False))\<close>: the zip
  asks the training loader first and stops when it is exhausted, without asking the
  chain; otherwise it asks the chain, which may not return.
\<close>

fun train_loop ::
  "('x, 'y, 't, 'o, 's) framework \<Rightarrow> bool \<Rightarrow> int \<Rightarrow> ('x \<times> 'y) list \<Rightarrow> int \<Rightarrow> ('x \<times> 'y) list
     \<Rightarrow> ('x \<times> 'y) list option \<Rightarrow> ('t, 'o, 's) state \<Rightarrow> ('t, 'o, 's) state outcome option"
where
  "train_loop fw dbg n val_dataloader i [] active s = Some (Return s)"
| "train_loop fw dbg n val_dataloader i (t # ts) active s =
     (case chain_next val_dataloader active of
        None \<Rightarrow> None
      | Some (v, active') \<Rightarrow>
          (case train_body fw dbg n i t v s of
             Raise e s' \<Rightarrow> Some (Raise e s')
           | Return s' \<Rightarrow> train_loop fw dbg n val_dataloader (i + 1) ts active' s'))"

definition train ::
  "('x, 'y, 't, 'o, 's) framework \<Rightarrow> bool \<Rightarrow> ('x \<times> 'y) list \<Rightarrow> ('x \<times> 'y) list
     \<Rightarrow> ('t, 'o, 's) state \<Rightarrow> ('t, 'o, 's) state outcome option"
where
  "train fw dbg train_dataloader val_dataloader s =
     (case train_loop fw dbg (int (length train_dataloader)) val_dataloader 0
             train_dataloader None s of
        None \<Rightarrow> None
      | Some (Raise e s') \<Rightarrow> Some (Raise e s')
      | Some (Return s') \<Rightarrow>
          Some (Return (fst s', (snd s')\<lparr>epochs_so_far := epochs_so_far (snd s') + 1\<rparr>)))"

subsection \<open>\<open>test\<close>\<close>

definition test_body ::
  "('x, 'y, 't, 'o, 's) framework \<Rightarrow> 'x \<Rightarrow> 'y \<Rightarrow> ('t, 'o, 's) state \<Rightarrow> ('t, 'o, 's) state outcome"
where
  "test_body fw x true_y s =
     (let (metrics, _, pred_y) = compute_loss fw Nullcontext x true_y (snd s);
          pred_y = gt_zero_long pred_y;
          metrics = foldl (\<lambda>d (k, v). AList.update k v d) metrics
                      (compute_classif_eval_metrics fw true_y pred_y)
      in send_to_dash fw metrics ''test'' s)"

fun test_loop ::
  "('x, 'y, 't, 'o, 's) framework \<Rightarrow> ('x \<times> 'y) list \<Rightarrow> ('t, 'o, 's) state
     \<Rightarrow> ('t, 'o, 's) state outcome"
where
  "test_loop fw [] s = Return s"
| "test_loop fw ((x, true_y) # rest) s = and_then (test_body fw x true_y s) (test_loop fw rest)"

definition test ::
  "('x, 'y, 't, 'o, 's) framework \<Rightarrow> ('x \<times> 'y) list \<Rightarrow> ('t, 'o, 's) state
     \<Rightarrow> ('t, 'o, 's) state outcome"
where
  "test fw dataloader s =
     and_then (test_loop fw dataloader (model_eval s)) (\<lambda>s'. Return (model_train s'))"

subsection \<open>\<open>save\<close> and \<open>load\<close>\<close>

text \<open>The decimal text of an integer, as an f-string prints it.\<close>

fun str_nat :: "nat \<Rightarrow> string" where
  "str_nat n =
     (if n < 10 then [''0123456789'' ! n]
      else str_nat (n div 10) @ [''0123456789'' ! (n mod 10)])"

definition str_int :: "int \<Rightarrow> string" where
  "str_int k = (if k < 0 then ''-'' @ str_nat (nat (- k)) else str_nat (nat k))"

text \<open>\<^verbatim>\<open>Path(path) / f"model_{epochs_so_far}.tar"\<close>, a path being the list of its parts.\<close>

definition model_path :: "path \<Rightarrow> int \<Rightarrow> path" where
  "model_path p k = p @ [''model_'' @ str_int k @ ''.tar'']"

text \<open>
  \<^verbatim>\<open>load_state_dict\<close> in its default strict form: the names of the dictionary must be
  those of the model (none missing, none unexpected), or the call raises; each tensor
  of the model then takes the value stored under its name.
\<close>

definition load_state_dict :: "'t state_dict \<Rightarrow> 't state_dict \<Rightarrow> 't state_dict option" where
  "load_state_dict own sd =
     (if list_all (\<lambda>k. k \<in> set (map fst sd)) (map fst own)
         \<and> list_all (\<lambda>k. k \<in> set (map fst own)) (map fst sd)
      then Some (map (\<lambda>(k, old). (k, case map_of sd k of Some t \<Rightarrow> t | None \<Rightarrow> old)) own)
      else None)"

fun save :: "path \<Rightarrow> int \<Rightarrow> ('t, 'o, 's) state \<Rightarrow> ('t, 'o, 's) state outcome" where
  "save p k (w, c) = Return (w\<lparr>files := (files w)(model_path p k \<mapsto> params c)\<rparr>, c)"

fun load :: "path \<Rightarrow> int \<Rightarrow> ('t, 'o, 's) state \<Rightarrow> ('t, 'o, 's) state outcome" where
  "load p k (w, c) =
     (case files w (model_path p k) of
        None \<Rightarrow> Raise (FileNotFoundError (model_path p k)) (w, c)
      | Some sd \<Rightarrow>
          (case load_state_dict (params c) sd of
             None \<Rightarrow> Raise RuntimeError (w, c)
           | Some ps \<Rightarrow> Return (w, c\<lparr>params := ps\<rparr>)))"

subsection \<open>The pairs of the iteration, and the loop over them\<close>

text \<open>
  The pairs that \<^verbatim>\<open>agg_iterable\<close> yields when it is run to its end, from a given state of
  the chain; and the \<^verbatim>\<open>for\<close> loop of \<open>train\<close> over a list of pairs that is already there.
  \<open>train_loop\<close> interleaves the two, as the lazy iteration of the source does.
\<close>

fun agg_iterable ::
  "'a list \<Rightarrow> 'b list \<Rightarrow> 'b list option \<Rightarrow> ('a \<times> 'b) list option"
where
  "agg_iterable [] val_dataloader active = Some []"
| "agg_iterable (t # ts) val_dataloader active =
     (case chain_next val_dataloader active of
        None \<Rightarrow> None
      | Some (v, active') \<Rightarrow>
          (case agg_iterable ts val_dataloader active' of
             None \<Rightarrow> None
           | Some ps \<Rightarrow> Some ((t, v) # ps)))"

fun train_pairs ::
  "('x, 'y, 't, 'o, 's) framework \<Rightarrow> bool \<Rightarrow> int \<Rightarrow> int \<Rightarrow> (('x \<times> 'y) \<times> ('x \<times> 'y)) list
     \<Rightarrow> ('t, 'o, 's) state \<Rightarrow> ('t, 'o, 's) state outcome"
where
  "train_pairs fw dbg n i [] s = Return s"
| "train_pairs fw dbg n i ((t, v) # ps) s =
     and_then (train_body fw dbg n i t v s) (train_pairs fw dbg n (i + 1) ps)"

subsection \<open>The trace that the description of \<open>train\<close> prescribes\<close>

text \<open>
  The calls of one optimizer step (clipping and its unscaling only with a positive
  \<open>clip_norm\<close>), the calls of one validation block, the calls of the batch of index
  \<open>i\<close> out of \<open>n\<close>, and the trace of \<open>m\<close> consecutive batches from index \<open>i\<close> on, the
  first of them stamped \<open>it\<close>. These follow the description, not the code; the code is
  compared with them below.
\<close>

definition step_calls :: "real \<Rightarrow> call list" where
  "step_calls cn =
     (if cn > 0 then [Unscale, ClipGradNorm cn] else [])
       @ [ScalerStep, ScalerUpdate, ZeroGrad, WandbLog ''train'']"

definition eval_calls :: "call list" where
  "eval_calls = [ModelEval, WandbLog ''val'', ModelTrain]"

definition expected_calls :: "hps \<Rightarrow> int \<Rightarrow> int \<Rightarrow> call list" where
  "expected_calls h n i =
     [Backward]
       @ (if (i + 1) mod acc_grad_steps h = 0 \<or> i + 1 = n then step_calls (clip_norm h) else [])
       @ (if (i + 1) mod eval_every h = 0 \<or> i + 1 = n then eval_calls else [])"

fun expected_trace :: "hps \<Rightarrow> int \<Rightarrow> int \<Rightarrow> int \<Rightarrow> nat \<Rightarrow> (int \<times> call) list" where
  "expected_trace h n it i 0 = []"
| "expected_trace h n it i (Suc m) =
     map (Pair it) (expected_calls h n i) @ expected_trace h n (it + 1) (i + 1) m"

text \<open>The calls made between two worlds, and those of them that carry a given stamp.\<close>

definition new_calls :: "'t world \<Rightarrow> 't world \<Rightarrow> (int \<times> call) list" where
  "new_calls w w' = drop (length (calls w)) (calls w')"

definition calls_at :: "int \<Rightarrow> (int \<times> call) list \<Rightarrow> call list" where
  "calls_at t tr = map snd (filter (\<lambda>p. fst p = t) tr)"

text \<open>
  \<open>extends s ks s'\<close>: from \<open>s\<close> to \<open>s'\<close> the trace grew by the calls \<open>ks\<close>, all with the
  stamp of \<open>s\<close>, and the configuration and the two counters are the same.
\<close>

definition extends ::
  "('t, 'o, 's) state \<Rightarrow> call list \<Rightarrow> ('t, 'o, 's) state \<Rightarrow> bool"
where
  "extends s ks s' \<longleftrightarrow>
     calls (fst s') = calls (fst s) @ map (Pair (iters_so_far (snd s))) ks
     \<and> hps (snd s') = hps (snd s) \<and> iters_so_far (snd s') = iters_so_far (snd s)
     \<and> epochs_so_far (snd s') = epochs_so_far (snd s)"

subsection \<open>A small instance\<close>

text \<open>
  A framework whose model returns its input as the only logit, whose optimizer state
  counts the steps and whose scaler state counts the updates; a dashboard that is down
  for the validation records, and one that is down for the test records; a
  configuration without clipping that steps and evaluates every second batch; a
  training loader of three batches and a validation loader of two.
\<close>

definition demo_fw :: "(real, bool, real, nat, nat) framework" where
  "demo_fw =
     \<lparr>model_call = (\<lambda>tr cx ps x. [Finite x]),
      criterion = (\<lambda>pred y. Finite 1),
      tensor_div = (\<lambda>l k. l),
      backward = (\<lambda>sc tr cx ps x y k g. g),
      gs_unscale = (\<lambda>sc ob g. (sc, g)),
      clip_grad_norm = (\<lambda>cn g. g),
      gs_step = (\<lambda>sc ob g ps. (ob + 1, ps)),
      gs_update = (\<lambda>sc g. sc + 1),
      zero_grad = (\<lambda>g. []),
      adam = (\<lambda>ps l. 0),
      grad_scaler = (\<lambda>b. 0),
      compute_classif_eval_metrics = (\<lambda>y pred. [(''acc'', Finite 1)]),
      wandb_log = (\<lambda>d st. True)\<rparr>"

definition demo_fw_val_down :: "(real, bool, real, nat, nat) framework" where
  "demo_fw_val_down = demo_fw\<lparr>wandb_log := (\<lambda>d st. map_of d ''val/loss'' = None)\<rparr>"

definition demo_fw_test_down :: "(real, bool, real, nat, nat) framework" where
  "demo_fw_test_down = demo_fw\<lparr>wandb_log := (\<lambda>d st. map_of d ''test/loss'' = None)\<rparr>"

definition demo_hps :: hps where
  "demo_hps =
     \<lparr>lr = 1, clip_norm = 0, acc_grad_steps = 2, eval_every = 2, fp16 = False,
      cuda = False, backbone = ''resnet18'', pretrained_w_imagenet = False, num_classes = 1\<rparr>"

definition demo_world :: "real world" where
  "demo_world = \<lparr>files = Map.empty, dash = [], logs = [], calls = []\<rparr>"

definition demo_train :: "(real \<times> bool) list" where
  "demo_train = [(1, True), (- 2, False), (3, True)]"

definition demo_val :: "(real \<times> bool) list" where
  "demo_val = [(1 / 2, True), (- 1, False)]"

definition demo_state :: "(real, nat, nat) state" where
  "demo_state = init demo_fw ''cpu'' demo_hps [(''fc.weight'', 0), (''fc.bias'', 0)] demo_world"

section \<open>Properties\<close>

subsection \<open>What one batch does\<close>

lemma send_to_dash_final:
  "final_state (send_to_dash fw m mode (w, c)) = (w', c') \<Longrightarrow>
     calls w' = calls w @ [(iters_so_far c, WandbLog mode)] \<and> c' = c"
  by (auto simp: Let_def split: if_splits)

lemma optimizer_step_final:
  "final_state (optimizer_step fw m (w, c)) = (w', c') \<Longrightarrow>
     calls w' = calls w @ map (Pair (iters_so_far c)) (step_calls (clip_norm (hps c)))
     \<and> hps c' = hps c \<and> iters_so_far c' = iters_so_far c
     \<and> epochs_so_far c' = epochs_so_far c \<and> training c' = training c"
  by (auto simp: optimizer_step_def step_calls_def Let_def split: if_splits prod.splits)

lemma val_block_Return:
  "val_block fw x y (w, c) = Return (w', c') \<Longrightarrow>
     calls w' = calls w @ map (Pair (iters_so_far c)) eval_calls
     \<and> hps c' = hps c \<and> iters_so_far c' = iters_so_far c
     \<and> epochs_so_far c' = epochs_so_far c \<and> training c'"
  by (auto simp: val_block_def eval_calls_def compute_loss_def Let_def split: if_splits prod.splits)

lemma val_block_Raise:
  "val_block fw x y (w, c) = Raise e (w', c') \<Longrightarrow>
     calls w' = calls w @ map (Pair (iters_so_far c)) [ModelEval, WandbLog ''val'']
     \<and> hps c' = hps c \<and> iters_so_far c' = iters_so_far c
     \<and> epochs_so_far c' = epochs_so_far c \<and> \<not> training c'"
  by (auto simp: val_block_def eval_calls_def compute_loss_def Let_def split: if_splits prod.splits)


lemma and_then_Return_iff:
  "and_then x f = Return s' \<longleftrightarrow> (\<exists>s1. x = Return s1 \<and> f s1 = Return s')"
  by (cases x) auto

lemma and_then_Raise_iff:
  "and_then x f = Raise e s' \<longleftrightarrow>
     x = Raise e s' \<or> (\<exists>s1. x = Return s1 \<and> f s1 = Raise e s')"
  by (cases x) auto

lemma optimizer_step_Return:
  "optimizer_step fw m (w, c) = Return (w', c') \<Longrightarrow>
     calls w' = calls w @ map (Pair (iters_so_far c)) (step_calls (clip_norm (hps c)))
     \<and> hps c' = hps c \<and> iters_so_far c' = iters_so_far c
     \<and> epochs_so_far c' = epochs_so_far c \<and> training c' = training c"
  using optimizer_step_final [of fw m w c w' c'] by simp

lemma optimizer_step_Raise:
  "optimizer_step fw m (w, c) = Raise e (w', c') \<Longrightarrow>
     calls w' = calls w @ map (Pair (iters_so_far c)) (step_calls (clip_norm (hps c)))
     \<and> hps c' = hps c \<and> iters_so_far c' = iters_so_far c
     \<and> epochs_so_far c' = epochs_so_far c \<and> training c' = training c"
  using optimizer_step_final [of fw m w c w' c'] by simp

lemma extends_trans: "extends s ks s1 \<Longrightarrow> extends s1 ks' s2 \<Longrightarrow> extends s (ks @ ks') s2"
  by (simp add: extends_def)

lemma extends_refl: "extends s [] s"
  by (simp add: extends_def)

lemma do_backward_extends:
  "extends s [Backward] (do_backward fw x y s) \<and> training (snd (do_backward fw x y s)) = training (snd s)"
  by (cases s) (simp add: extends_def)

lemma optimizer_step_extends:
  "extends s (step_calls (clip_norm (hps (snd s)))) (final_state (optimizer_step fw m s))
     \<and> training (snd (final_state (optimizer_step fw m s))) = training (snd s)"
  using optimizer_step_final [of fw m "fst s" "snd s"] 
  by (cases "final_state (optimizer_step fw m s)") (simp add: extends_def)

lemma val_block_extends:
  "val_block fw x y s = Return s' \<Longrightarrow> extends s eval_calls s' \<and> training (snd s')"
  "val_block fw x y s = Raise e s' \<Longrightarrow>
     extends s [ModelEval, WandbLog ''val''] s' \<and> \<not> training (snd s') \<and> e = ConnectionError"
  by (cases s; cases s';
      auto simp: extends_def val_block_def eval_calls_def compute_loss_def Let_def and_then_Raise_iff
           split: if_splits prod.splits)+


lemma send_to_dash_Raise:
  "send_to_dash fw m mode s = Raise e s' \<Longrightarrow> e = ConnectionError \<and> (\<exists>d st. \<not> wandb_log fw d st)"
  by (cases s) (auto simp: Let_def split: if_splits)

lemma optimizer_step_error:
  "optimizer_step fw m s = Raise e s' \<Longrightarrow> e = ConnectionError \<and> (\<exists>d st. \<not> wandb_log fw d st)"
  unfolding optimizer_step_def Let_def by (rule send_to_dash_Raise)

lemma val_block_error:
  "val_block fw x y s = Raise e s' \<Longrightarrow> \<exists>d st. \<not> wandb_log fw d st"
  by (auto simp: val_block_def Let_def and_then_Raise_iff split: prod.splits
           dest: send_to_dash_Raise)

lemma train_body_summary:
  fixes s :: "('t, 'o, 's) state"
  defines "h \<equiv> hps (snd s)"
  shows "\<exists>pre s3. extends s pre s3
      \<and> prefix pre (expected_calls h n i) \<and> pre \<noteq> []
      \<and> (acc_grad_steps h = 0 \<longrightarrow> pre = [Backward])
      \<and> (\<not> ((i + 1) mod eval_every h = 0 \<or> i + 1 = n) \<longrightarrow> training (snd s3) = training (snd s))
      \<and> (case train_body fw dbg n i t v s of
           Return s' \<Rightarrow> pre = expected_calls h n i \<and> s' = incr_iters s3 \<and> \<not> dbg
             \<and> acc_grad_steps h \<noteq> 0 \<and> eval_every h \<noteq> 0
             \<and> (training (snd s) \<longrightarrow> training (snd s3))
             \<and> ((i + 1) mod eval_every h = 0 \<or> i + 1 = n \<longrightarrow> training (snd s3))
         | Raise e s' \<Rightarrow> s' = s3
             \<and> (e = ZeroDivisionError \<and> (acc_grad_steps h = 0 \<or> eval_every h = 0)
                \<or> e = ConnectionError \<and> (\<exists>d st. \<not> wandb_log fw d st)
                \<or> e = AttributeError ''scheduler'' \<and> dbg))"
proof -
  obtain t_x t_y v_x v_y where tv: "t = (t_x, t_y)" "v = (v_x, v_y)"
    by (cases t, cases v) blast
  define s1 where "s1 = do_backward fw t_x t_y s"
  define stepc where "stepc \<longleftrightarrow> (i + 1) mod acc_grad_steps h = 0 \<or> i + 1 = n"
  define evalc where "evalc \<longleftrightarrow> (i + 1) mod eval_every h = 0 \<or> i + 1 = n"
  define m where "m = AList.update ''loss''
      (tensor_div fw (criterion fw (model_call fw (training (snd s)) (ctx (snd s)) (params (snd s)) t_x) t_y)
         (acc_grad_steps h))
      [(''loss'', criterion fw (model_call fw (training (snd s)) (ctx (snd s)) (params (snd s)) t_x) t_y)]"
  define A where "A = (if stepc then optimizer_step fw m s1 else Return s1)"
  define B where "B = (\<lambda>s2 :: ('t, 'o, 's) state. if evalc then val_block fw v_x v_y s2 else Return s2)"
  define C where "C = (\<lambda>s3 :: ('t, 'o, 's) state. if dbg then Raise (AttributeError ''scheduler'') s3 else Return (incr_iters s3))"
  have e1: "extends s [Backward] s1" and t1: "training (snd s1) = training (snd s)"
    using do_backward_extends [of s fw t_x t_y] by (simp_all add: s1_def)
  have h1: "hps (snd s1) = h"
    using e1 by (simp add: extends_def h_def)
  have unfold: "train_body fw dbg n i t v s =
      (if acc_grad_steps h = 0 then Raise ZeroDivisionError s1
       else and_then A (\<lambda>s2. if eval_every (hps (snd s2)) = 0 then Raise ZeroDivisionError s2
                              else and_then ((if (i + 1) mod eval_every (hps (snd s2)) = 0 \<or> i + 1 = n
                     then val_block fw v_x v_y s2 else Return s2)) C))"
    unfolding C_def A_def
    by (simp add: train_body_def tv Let_def compute_loss_def s1_def [symmetric] h1 stepc_def
          m_def h_def [symmetric])
  let ?E = "expected_calls h n i"
  let ?sc = "if stepc then step_calls (clip_norm h) else []"
  let ?ec = "if evalc then eval_calls else []"
  have E: "?E = [Backward] @ ?sc @ ?ec"
    by (simp add: expected_calls_def stepc_def evalc_def)
  show ?thesis
  proof (cases "acc_grad_steps h = 0")
    case True
    then have "train_body fw dbg n i t v s = Raise ZeroDivisionError s1"
      by (simp add: unfold)
    with e1 True t1 show ?thesis
      by (intro exI [of _ "[Backward]"] exI [of _ s1]) (simp add: E)
  next
    case acc: False
    have eA: "extends s1 ?sc (final_state A)" and tA: "training (snd (final_state A)) = training (snd s)"
      using optimizer_step_extends [of s1 fw m] h1 t1 by (auto simp: A_def extends_refl)
    have e2: "extends s ([Backward] @ ?sc) (final_state A)"
      by (rule extends_trans [OF e1 eA])
    show ?thesis
    proof (cases A)
      case (Raise e2' s2)
      then have sc: stepc and os: "optimizer_step fw m s1 = Raise e2' s2"
        by (auto simp: A_def split: if_splits)
      have "train_body fw dbg n i t v s = Raise e2' s2"
        using acc Raise by (simp add: unfold)
      moreover have "extends s ([Backward] @ ?sc) s2" "training (snd s2) = training (snd s)"
        using e2 tA Raise by simp_all
      ultimately show ?thesis
        using acc optimizer_step_error [OF os]
        by (intro exI [of _ "[Backward] @ ?sc"] exI [of _ s2]) (auto simp: E)
    next
      case (Return s2)
      have e2': "extends s ([Backward] @ ?sc) s2" and t2: "training (snd s2) = training (snd s)"
        using e2 tA Return by simp_all
      have h2: "hps (snd s2) = h"
        using e2' by (simp add: extends_def h_def)
      have unfold2: "train_body fw dbg n i t v s =
          (if eval_every h = 0 then Raise ZeroDivisionError s2 else and_then (B s2) C)"
        using acc Return by (simp add: unfold h2 B_def evalc_def)
      show ?thesis
      proof (cases "eval_every h = 0")
        case True
        then have "train_body fw dbg n i t v s = Raise ZeroDivisionError s2"
          by (simp add: unfold2)
        with e2' True acc t2 show ?thesis
          by (intro exI [of _ "[Backward] @ ?sc"] exI [of _ s2]) (auto simp: E)
      next
        case ev: False
        show ?thesis
        proof (cases "B s2")
          case (Raise e3 s3)
          then have ec: evalc and vb: "val_block fw v_x v_y s2 = Raise e3 s3"
            by (auto simp: B_def split: if_splits)
          have x3: "extends s2 [ModelEval, WandbLog ''val''] s3" and e3: "e3 = ConnectionError"
            using val_block_extends(2) [OF vb] by simp_all
          have "extends s (([Backward] @ ?sc) @ [ModelEval, WandbLog ''val'']) s3"
            by (rule extends_trans [OF e2' x3])
          moreover have "train_body fw dbg n i t v s = Raise e3 s3"
            using ev Raise by (simp add: unfold2)
          ultimately show ?thesis
            using acc ec e3 val_block_error [OF vb]
            by (intro exI [of _ "([Backward] @ ?sc) @ [ModelEval, WandbLog ''val'']"] exI [of _ s3])
               (auto simp: E eval_calls_def evalc_def)
        next
          case (Return s3)
          have e3: "extends s2 ?ec s3" and t3: "training (snd s2) \<longrightarrow> training (snd s3)"
            and t3': "evalc \<longrightarrow> training (snd s3)"
            using Return val_block_extends(1) [of fw v_x v_y s2 s3]
            by (auto simp: B_def extends_refl split: if_splits)
          have t4: "\<not> evalc \<longrightarrow> training (snd s3) = training (snd s)"
            using Return t2 by (auto simp: B_def)
          have eE: "extends s ?E s3"
            using extends_trans [OF e2' e3] by (simp add: E)
          have out: "train_body fw dbg n i t v s = C s3"
            using ev Return by (simp add: unfold2)
          have ne: "?E \<noteq> []"
            by (simp add: E)
          show ?thesis
            using eE out acc ev t2 t3 t3' t4 ne
            by (intro exI [of _ ?E] exI [of _ s3]) (auto simp: C_def evalc_def)
        qed
      qed
    qed
  qed
qed


lemma calls_at_append: "calls_at t (xs @ ys) = calls_at t xs @ calls_at t ys"
  by (simp add: calls_at_def)

lemma calls_at_stamped: "calls_at t (map (Pair u) ks) = (if u = t then ks else [])"
  by (induction ks) (auto simp: calls_at_def)

lemma calls_at_Nil: "calls_at t [] = []"
  by (simp add: calls_at_def)

lemma set_calls_at: "k \<in> set (calls_at t tr) \<longleftrightarrow> (t, k) \<in> set tr"
  by (auto simp: calls_at_def image_iff)

lemma calls_at_expected_trace:
  "calls_at t (expected_trace h n it i m) =
     (if it \<le> t \<and> t < it + int m then expected_calls h n (i + (t - it)) else [])"
proof (induction m arbitrary: it i)
  case 0
  show ?case by (auto simp: calls_at_Nil)
next
  case (Suc m)
  have "i + 1 + (t - (it + 1)) = i + (t - it)" by simp
  then show ?case
    by (simp add: calls_at_append calls_at_stamped Suc.IH)
qed

lemma train_loop_summary:
  fixes s :: "('t, 'o, 's) state"
  assumes "train_loop fw dbg n vdl i ts act s = Some out"
  shows "\<exists>m pre. m \<le> length ts
      \<and> calls (fst (final_state out))
          = calls (fst s) @ expected_trace (hps (snd s)) n (iters_so_far (snd s)) i m
              @ map (Pair (iters_so_far (snd s) + int m)) pre
      \<and> hps (snd (final_state out)) = hps (snd s)
      \<and> epochs_so_far (snd (final_state out)) = epochs_so_far (snd s)
      \<and> iters_so_far (snd (final_state out)) = iters_so_far (snd s) + int m
      \<and> (0 < m \<longrightarrow> \<not> dbg \<and> acc_grad_steps (hps (snd s)) \<noteq> 0 \<and> eval_every (hps (snd s)) \<noteq> 0)
      \<and> (case out of
           Return s' \<Rightarrow> m = length ts \<and> pre = []
             \<and> (training (snd s) \<longrightarrow> training (snd s'))
         | Raise e s' \<Rightarrow> m < length ts
             \<and> prefix pre (expected_calls (hps (snd s)) n (i + int m)) \<and> pre \<noteq> []
             \<and> (acc_grad_steps (hps (snd s)) = 0 \<longrightarrow> pre = [Backward])
             \<and> (e = ZeroDivisionError \<and> (acc_grad_steps (hps (snd s)) = 0 \<or> eval_every (hps (snd s)) = 0)
                \<or> e = ConnectionError \<and> (\<exists>d st. \<not> wandb_log fw d st)
                \<or> e = AttributeError ''scheduler'' \<and> dbg))"
  using assms
proof (induction ts arbitrary: i act s out)
  case Nil
  then have "out = Return s" by simp
  then show ?case
    by (intro exI [of _ 0] exI [of _ "[]"]) simp
next
  case (Cons t ts)
  let ?h = "hps (snd s)" and ?it = "iters_so_far (snd s)"
  from Cons.prems obtain v act' where cn: "chain_next vdl act = Some (v, act')"
    by (auto split: option.splits)
  obtain pre s3 where b: "extends s pre s3" "prefix pre (expected_calls ?h n i)" "pre \<noteq> []"
      "acc_grad_steps ?h = 0 \<longrightarrow> pre = [Backward]"
      "\<not> ((i + 1) mod eval_every ?h = 0 \<or> i + 1 = n) \<longrightarrow> training (snd s3) = training (snd s)"
    and bc: "case train_body fw dbg n i t v s of
           Return s' \<Rightarrow> pre = expected_calls ?h n i \<and> s' = incr_iters s3 \<and> \<not> dbg
             \<and> acc_grad_steps ?h \<noteq> 0 \<and> eval_every ?h \<noteq> 0
             \<and> (training (snd s) \<longrightarrow> training (snd s3))
             \<and> ((i + 1) mod eval_every ?h = 0 \<or> i + 1 = n \<longrightarrow> training (snd s3))
         | Raise e s' \<Rightarrow> s' = s3
             \<and> (e = ZeroDivisionError \<and> (acc_grad_steps ?h = 0 \<or> eval_every ?h = 0)
                \<or> e = ConnectionError \<and> (\<exists>d st. \<not> wandb_log fw d st)
                \<or> e = AttributeError ''scheduler'' \<and> dbg)"
    using train_body_summary [where s = s and n = n and i = i and fw = fw and dbg = dbg
        and t = t and v = v]
    by (elim exE conjE) (rule that, assumption+)
  show ?case
  proof (cases "train_body fw dbg n i t v s")
    case (Raise e s')
    with Cons.prems cn have out: "out = Raise e s'" by simp
    from bc Raise have "s' = s3" and err: "e = ZeroDivisionError \<and> (acc_grad_steps ?h = 0 \<or> eval_every ?h = 0)
                \<or> e = ConnectionError \<and> (\<exists>d st. \<not> wandb_log fw d st)
                \<or> e = AttributeError ''scheduler'' \<and> dbg" by simp_all
    with b show ?thesis
      by (intro exI [of _ 0] exI [of _ pre]) (simp add: out extends_def)
  next
    case (Return s1)
    with Cons.prems cn have rest: "train_loop fw dbg n vdl (i + 1) ts act' s1 = Some out" by simp
    from bc Return have s1: "s1 = incr_iters s3" and pre: "pre = expected_calls ?h n i"
      and ok: "\<not> dbg" "acc_grad_steps ?h \<noteq> 0" "eval_every ?h \<noteq> 0"
      and tr: "training (snd s) \<longrightarrow> training (snd s3)" by simp_all
    have f1: "calls (fst s1) = calls (fst s) @ map (Pair ?it) (expected_calls ?h n i)"
      "hps (snd s1) = ?h" "iters_so_far (snd s1) = ?it + 1"
      "epochs_so_far (snd s1) = epochs_so_far (snd s)" "training (snd s) \<longrightarrow> training (snd s1)"
      using b(1) tr by (simp_all add: s1 pre incr_iters_def extends_def)
    from Cons.IH [OF rest] obtain m pre' where ih: "m \<le> length ts"
      "calls (fst (final_state out))
          = calls (fst s1) @ expected_trace (hps (snd s1)) n (iters_so_far (snd s1)) (i + 1) m
              @ map (Pair (iters_so_far (snd s1) + int m)) pre'"
      "hps (snd (final_state out)) = hps (snd s1)"
      "epochs_so_far (snd (final_state out)) = epochs_so_far (snd s1)"
      "iters_so_far (snd (final_state out)) = iters_so_far (snd s1) + int m"
      "case out of
           Return s' \<Rightarrow> m = length ts \<and> pre' = []
             \<and> (training (snd s1) \<longrightarrow> training (snd s'))
         | Raise e s' \<Rightarrow> m < length ts
             \<and> prefix pre' (expected_calls (hps (snd s1)) n (i + 1 + int m)) \<and> pre' \<noteq> []
             \<and> (acc_grad_steps (hps (snd s1)) = 0 \<longrightarrow> pre' = [Backward])
             \<and> (e = ZeroDivisionError \<and> (acc_grad_steps (hps (snd s1)) = 0 \<or> eval_every (hps (snd s1)) = 0)
                \<or> e = ConnectionError \<and> (\<exists>d st. \<not> wandb_log fw d st)
                \<or> e = AttributeError ''scheduler'' \<and> dbg)"
      by blast
    have a: "i + 1 + int m = i + int (Suc m)" "?it + 1 + int m = ?it + int (Suc m)" by simp_all
    show ?thesis
      using ih ok f1
      by (intro exI [of _ "Suc m"] exI [of _ pre']) (auto simp: a split: outcome.splits)
  qed
qed

text \<open>The last batch of an epoch is evaluated, so a call that returns from a loader
  that is not empty leaves the model in training mode.\<close>

lemma train_loop_training:
  assumes "train_loop fw dbg n vdl i ts act s = Some (Return s')"
    and "ts \<noteq> []" and "n = i + int (length ts)"
  shows "training (snd s')"
  using assms
proof (induction ts arbitrary: i act s)
  case Nil
  then show ?case by simp
next
  case (Cons t ts)
  from Cons.prems(1) obtain v act' where cn: "chain_next vdl act = Some (v, act')"
    by (auto split: option.splits)
  from Cons.prems(1) cn obtain s1 where b: "train_body fw dbg n i t v s = Return s1"
    and rest: "train_loop fw dbg n vdl (i + 1) ts act' s1 = Some (Return s')"
    by (cases "train_body fw dbg n i t v s") simp_all
  show ?case
  proof (cases ts)
    case Nil
    with rest have "s' = s1" by simp
    moreover from Cons.prems(3) Nil have "i + 1 = n" by simp
    ultimately show ?thesis
      using train_body_summary [where s = s and n = n and i = i and fw = fw and dbg = dbg
          and t = t and v = v] b
      by (auto simp: incr_iters_def)
  next
    case (Cons t' ts')
    then have "ts \<noteq> []" by simp
    moreover from Cons.prems(3) have "n = i + 1 + int (length ts)" by simp
    ultimately show ?thesis
      using Cons.IH [OF rest] by blast
  qed
qed

subsection \<open>The chain over the validation loader\<close>

lemma chain_next_Cons: "chain_next vdl (Some (v # rest)) = Some (v, Some rest)"
  by (subst chain_next.simps) simp

lemma chain_next_None: "chain_next vdl None = chain_next vdl (Some vdl)"
  by (subst chain_next.simps) simp

lemma chain_next_Nil: "chain_next vdl (Some []) = chain_next vdl None"
  by (subst chain_next.simps) simp

lemma chain_next_restart:
  assumes "vdl \<noteq> []"
  shows "chain_next vdl None = Some (vdl ! 0, Some (drop 1 vdl))"
proof -
  from assms obtain v rest where "vdl = v # rest" by (cases vdl) auto
  then show ?thesis by (simp add: chain_next_None chain_next_Cons)
qed

text \<open>From the position \<open>p\<close> of the active iterator, the chain yields the element of
  index \<open>p mod length vdl\<close>: the loader is started again when it is exhausted.\<close>

lemma chain_next_drop:
  assumes "vdl \<noteq> []" and "p \<le> length vdl"
  shows "chain_next vdl (Some (drop p vdl))
           = Some (vdl ! (p mod length vdl), Some (drop (p mod length vdl + 1) vdl))"
proof (cases "p < length vdl")
  case True
  then have "drop p vdl = vdl ! p # drop (Suc p) vdl"
    by (simp add: Cons_nth_drop_Suc)
  with True show ?thesis by (simp add: chain_next_Cons)
next
  case False
  with assms have "p = length vdl" by simp
  with assms show ?thesis
    by (simp add: chain_next_Nil chain_next_restart)
qed

text \<open>With an empty loader the chain yields only what is left in an active iterator.\<close>

lemma chain_next_empty_aux:
  assumes "chain_next vdl act = Some r"
  shows "vdl \<noteq> [] \<or> (\<exists>v rest. act = Some (v # rest))"
  by (rule chain_next.raw_induct
        [where P = "\<lambda>vdl act r. vdl \<noteq> [] \<or> (\<exists>v rest. act = Some (v # rest))", OF _ assms])
     (auto split: option.splits list.splits)

lemma chain_next_empty: "chain_next ([] :: 'b list) None = None"
proof (cases "chain_next ([] :: 'b list) None")
  case None
  then show ?thesis .
next
  case (Some r)
  from chain_next_empty_aux [OF Some] show ?thesis by simp
qed

subsection \<open>The pairs\<close>

lemma agg_iterable_drop:
  assumes "vdl \<noteq> []" and "p \<le> length vdl"
  shows "\<exists>ps. agg_iterable ts vdl (Some (drop p vdl)) = Some ps \<and> length ps = length ts
           \<and> (\<forall>j < length ts. ps ! j = (ts ! j, vdl ! ((p + j) mod length vdl)))"
  using assms(2)
proof (induction ts arbitrary: p)
  case Nil
  show ?case by simp
next
  case (Cons t ts)
  let ?q = "p mod length vdl + 1"
  have q: "?q \<le> length vdl"
    using assms(1) by (simp add: Suc_leI)
  from Cons.IH [OF q] obtain ps where ps: "agg_iterable ts vdl (Some (drop ?q vdl)) = Some ps"
      "length ps = length ts" "\<forall>j < length ts. ps ! j = (ts ! j, vdl ! ((?q + j) mod length vdl))"
    by blast
  have step: "chain_next vdl (Some (drop p vdl)) = Some (vdl ! (p mod length vdl), Some (drop ?q vdl))"
    by (rule chain_next_drop [OF assms(1) Cons.prems])
  have "((t, vdl ! (p mod length vdl)) # ps) ! j = ((t # ts) ! j, vdl ! ((p + j) mod length vdl))"
    if "j < length (t # ts)" for j
  proof (cases j)
    case 0
    then show ?thesis by simp
  next
    case (Suc k)
    have "(p mod length vdl + Suc k) mod length vdl = (p + Suc k) mod length vdl"
      by (rule mod_add_left_eq)
    then have "(?q + k) mod length vdl = (p + Suc k) mod length vdl"
      by simp
    with Suc that ps(3) show ?thesis by simp
  qed
  with ps(1,2) step show ?case by simp
qed

lemma agg_iterable_cycles:
  assumes "vdl \<noteq> []"
  shows "\<exists>ps. agg_iterable tdl vdl None = Some ps \<and> length ps = length tdl
           \<and> (\<forall>j < length tdl. ps ! j = (tdl ! j, vdl ! (j mod length vdl)))"
proof -
  have "agg_iterable tdl vdl None = agg_iterable tdl vdl (Some (drop (length vdl) vdl))"
    by (cases tdl) (simp_all add: chain_next_Nil)
  moreover have "(length vdl + j) mod length vdl = j mod length vdl" for j
    by simp
  ultimately show ?thesis
    using agg_iterable_drop [OF assms, of "length vdl" tdl] by simp
qed

lemma train_loop_pairs:
  "agg_iterable ts vdl act = Some ps \<Longrightarrow>
     train_loop fw dbg n vdl i ts act s = Some (train_pairs fw dbg n i ps s)"
proof (induction ts arbitrary: act ps i s)
  case Nil
  then show ?case by simp
next
  case (Cons t ts)
  from Cons.prems obtain v act' ps' where c: "chain_next vdl act = Some (v, act')"
      "agg_iterable ts vdl act' = Some ps'" "ps = (t, v) # ps'"
    by (auto split: option.splits)
  show ?case
    using Cons.IH [OF c(2)] c by (cases "train_body fw dbg n i t v s") simp_all
qed

subsection \<open>What one call of \<open>train\<close> does\<close>

lemma train_summary:
  fixes s :: "('t, 'o, 's) state"
  assumes "train fw dbg tdl vdl s = Some out"
  shows "\<exists>m pre. m \<le> length tdl
      \<and> new_calls (fst s) (fst (final_state out))
          = expected_trace (hps (snd s)) (int (length tdl)) (iters_so_far (snd s)) 0 m
              @ map (Pair (iters_so_far (snd s) + int m)) pre
      \<and> hps (snd (final_state out)) = hps (snd s)
      \<and> iters_so_far (snd (final_state out)) = iters_so_far (snd s) + int m
      \<and> (0 < m \<longrightarrow> \<not> dbg \<and> acc_grad_steps (hps (snd s)) \<noteq> 0 \<and> eval_every (hps (snd s)) \<noteq> 0)
      \<and> (case out of
           Return s' \<Rightarrow> m = length tdl \<and> pre = []
             \<and> epochs_so_far (snd s') = epochs_so_far (snd s) + 1
             \<and> (training (snd s) \<longrightarrow> training (snd s'))
         | Raise e s' \<Rightarrow> m < length tdl
             \<and> epochs_so_far (snd s') = epochs_so_far (snd s)
             \<and> prefix pre (expected_calls (hps (snd s)) (int (length tdl)) (int m)) \<and> pre \<noteq> []
             \<and> (acc_grad_steps (hps (snd s)) = 0 \<longrightarrow> pre = [Backward])
             \<and> (e = ZeroDivisionError \<and> (acc_grad_steps (hps (snd s)) = 0 \<or> eval_every (hps (snd s)) = 0)
                \<or> e = ConnectionError \<and> (\<exists>d st. \<not> wandb_log fw d st)
                \<or> e = AttributeError ''scheduler'' \<and> dbg))"
proof -
  from assms obtain out0 where
    l: "train_loop fw dbg (int (length tdl)) vdl 0 tdl None s = Some out0"
    and o: "out = (case out0 of Raise e s' \<Rightarrow> Raise e s'
         | Return s' \<Rightarrow> Return (fst s', (snd s')\<lparr>epochs_so_far := epochs_so_far (snd s') + 1\<rparr>))"
    by (auto simp: train_def split: option.splits outcome.splits)
  from train_loop_summary [OF l] obtain m pre where
    "m \<le> length tdl
      \<and> calls (fst (final_state out0))
          = calls (fst s) @ expected_trace (hps (snd s)) (int (length tdl)) (iters_so_far (snd s)) 0 m
              @ map (Pair (iters_so_far (snd s) + int m)) pre
      \<and> hps (snd (final_state out0)) = hps (snd s)
      \<and> epochs_so_far (snd (final_state out0)) = epochs_so_far (snd s)
      \<and> iters_so_far (snd (final_state out0)) = iters_so_far (snd s) + int m
      \<and> (0 < m \<longrightarrow> \<not> dbg \<and> acc_grad_steps (hps (snd s)) \<noteq> 0 \<and> eval_every (hps (snd s)) \<noteq> 0)
      \<and> (case out0 of
           Return s' \<Rightarrow> m = length tdl \<and> pre = []
             \<and> (training (snd s) \<longrightarrow> training (snd s'))
         | Raise e s' \<Rightarrow> m < length tdl
             \<and> prefix pre (expected_calls (hps (snd s)) (int (length tdl)) (0 + int m)) \<and> pre \<noteq> []
             \<and> (acc_grad_steps (hps (snd s)) = 0 \<longrightarrow> pre = [Backward])
             \<and> (e = ZeroDivisionError \<and> (acc_grad_steps (hps (snd s)) = 0 \<or> eval_every (hps (snd s)) = 0)
                \<or> e = ConnectionError \<and> (\<exists>d st. \<not> wandb_log fw d st)
                \<or> e = AttributeError ''scheduler'' \<and> dbg))"
    by blast
  then show ?thesis
    by (intro exI [of _ m] exI [of _ pre]) (cases out0; simp add: o new_calls_def)
qed

subsection \<open>The small instance\<close>

lemma demo_state_fields:
  "iters_so_far (snd demo_state) = 0"
  "epochs_so_far (snd demo_state) = 0"
  "training (snd demo_state)"
  "hps (snd demo_state) = demo_hps"
  "params (snd demo_state) = [(''fc.weight'', 0), (''fc.bias'', 0)]"
  "opt (snd demo_state) = 0"
  "scaler (snd demo_state) = 0"
  "calls (fst demo_state) = []"
  "dash (fst demo_state) = []"
  "files (fst demo_state) = Map.empty"
  by (simp_all add: demo_state_def init_def Let_def demo_world_def demo_hps_def demo_fw_def)

lemma returned_iff: "returned out \<longleftrightarrow> (\<exists>s. out = Return s)"
  by (cases out) simp_all

lemma demo_train_returns:
  "\<exists>s2. train demo_fw False demo_train demo_val demo_state = Some (Return s2)"
proof -
  have "case train demo_fw False demo_train demo_val demo_state of
          Some (Return s) \<Rightarrow> True | _ \<Rightarrow> False"
    by code_simp
  then show ?thesis
    by (auto split: option.splits outcome.splits)
qed

lemma demo_train_raises:
  "\<exists>s3. train demo_fw_val_down False demo_train demo_val demo_state
           = Some (Raise ConnectionError s3) \<and> \<not> training (snd s3)"
proof -
  have "case train demo_fw_val_down False demo_train demo_val demo_state of
          Some (Raise e s) \<Rightarrow> e = ConnectionError \<and> \<not> training (snd s) | _ \<Rightarrow> False"
    by code_simp
  then show ?thesis
    by (auto split: option.splits outcome.splits)
qed

lemma demo_train_body_returns:
  "\<exists>s1. train_body demo_fw False 3 0 (1, True) (1 / 2, True) demo_state = Return s1"
proof -
  have "returned (train_body demo_fw False 3 0 (1, True) (1 / 2, True) demo_state)"
    by code_simp
  then show ?thesis
    by (simp add: returned_iff)
qed

subsection \<open>What one call of \<open>test\<close> does\<close>

lemma test_body_keeps:
  "hps (snd (final_state (test_body fw x y s))) = hps (snd s)
   \<and> iters_so_far (snd (final_state (test_body fw x y s))) = iters_so_far (snd s)
   \<and> epochs_so_far (snd (final_state (test_body fw x y s))) = epochs_so_far (snd s)
   \<and> training (snd (final_state (test_body fw x y s))) = training (snd s)"
  by (cases s) (simp add: test_body_def compute_loss_def Let_def)

lemma test_loop_keeps:
  "hps (snd (final_state (test_loop fw dl s))) = hps (snd s)
   \<and> iters_so_far (snd (final_state (test_loop fw dl s))) = iters_so_far (snd s)
   \<and> epochs_so_far (snd (final_state (test_loop fw dl s))) = epochs_so_far (snd s)
   \<and> training (snd (final_state (test_loop fw dl s))) = training (snd s)"
proof (induction dl arbitrary: s)
  case Nil
  show ?case by simp
next
  case (Cons b dl)
  obtain x y where b: "b = (x, y)" by (cases b)
  show ?case
  proof (cases "test_body fw x y s")
    case (Return s1)
    with Cons.IH [of s1] test_body_keeps [of fw x y s] show ?thesis
      by (simp add: b)
  next
    case (Raise e s1)
    with test_body_keeps [of fw x y s] show ?thesis
      by (simp add: b)
  qed
qed

lemma test_keeps:
  "hps (snd (final_state (test fw dl s))) = hps (snd s)
   \<and> iters_so_far (snd (final_state (test fw dl s))) = iters_so_far (snd s)
   \<and> epochs_so_far (snd (final_state (test fw dl s))) = epochs_so_far (snd s)
   \<and> training (snd (final_state (test fw dl s))) = returned (test fw dl s)"
proof -
  obtain w c where s: "s = (w, c)" by (cases s)
  have e: "hps (snd (model_eval s)) = hps (snd s)"
    "iters_so_far (snd (model_eval s)) = iters_so_far (snd s)"
    "epochs_so_far (snd (model_eval s)) = epochs_so_far (snd s)"
    "\<not> training (snd (model_eval s))"
    by (simp_all add: s)
  show ?thesis
  proof (cases "test_loop fw dl (model_eval s)")
    case (Return s1)
    obtain w1 c1 where s1: "s1 = (w1, c1)" by (cases s1)
    from Return test_loop_keeps [of fw dl "model_eval s"] e show ?thesis
      by (simp add: test_def s1)
  next
    case (Raise e1 s1)
    with test_loop_keeps [of fw dl "model_eval s"] e show ?thesis
      by (simp add: test_def)
  qed
qed

lemma test_body_error:
  "test_body fw x y s = Raise e s' \<Longrightarrow> e = ConnectionError \<and> (\<exists>d st. \<not> wandb_log fw d st)"
  by (auto simp: test_body_def Let_def split: prod.splits dest: send_to_dash_Raise)

lemma test_loop_error:
  "test_loop fw dl s = Raise e s' \<Longrightarrow> e = ConnectionError \<and> (\<exists>d st. \<not> wandb_log fw d st)"
proof (induction dl arbitrary: s)
  case Nil
  then show ?case by simp
next
  case (Cons b dl)
  obtain x y where b: "b = (x, y)" by (cases b)
  show ?case
  proof (cases "test_body fw x y s")
    case (Return s1)
    with Cons.prems have "test_loop fw dl s1 = Raise e s'"
      by (simp add: b)
    then show ?thesis by (rule Cons.IH)
  next
    case (Raise e1 s1)
    with Cons.prems have "e1 = e"
      by (simp add: b)
    with test_body_error [OF Raise] show ?thesis by simp
  qed
qed

lemma test_error:
  "test fw dl s = Raise e s' \<Longrightarrow> e = ConnectionError \<and> (\<exists>d st. \<not> wandb_log fw d st)"
  by (auto simp: test_def and_then_Raise_iff dest: test_loop_error)

subsection \<open>The calls of one epoch, index by index\<close>

lemma calls_at_train:
  fixes s :: "('t, 'o, 's) state"
  assumes "train fw dbg tdl vdl s = Some out"
  shows "\<exists>m pre. m \<le> length tdl
      \<and> (\<forall>i. calls_at (iters_so_far (snd s) + i) (new_calls (fst s) (fst (final_state out)))
             = (if 0 \<le> i \<and> i < int m then expected_calls (hps (snd s)) (int (length tdl)) i
                else if i = int m then pre else []))
      \<and> (0 < m \<longrightarrow> \<not> dbg \<and> acc_grad_steps (hps (snd s)) \<noteq> 0 \<and> eval_every (hps (snd s)) \<noteq> 0)
      \<and> (returned out \<longrightarrow> m = length tdl \<and> pre = [])
      \<and> (\<not> returned out \<longrightarrow> m < length tdl
            \<and> prefix pre (expected_calls (hps (snd s)) (int (length tdl)) (int m)) \<and> pre \<noteq> []
            \<and> (acc_grad_steps (hps (snd s)) = 0 \<longrightarrow> pre = [Backward]))"
  using train_summary [OF assms]
  apply (elim exE conjE)
  subgoal for m pre
    apply (rule exI [of _ m], rule exI [of _ pre])
    apply (cases out)
     apply (simp_all add: calls_at_append calls_at_expected_trace calls_at_stamped)
    done
  done

lemma step_calls_in_expected:
  assumes "k \<in> set (step_calls cn)" and "k \<in> set (expected_calls h n i)"
  shows "(i + 1) mod acc_grad_steps h = 0 \<or> i + 1 = n"
  using assms by (auto simp: step_calls_def expected_calls_def eval_calls_def split: if_splits)

lemma filter_step_calls_expected:
  "filter (\<lambda>k. k \<in> set (step_calls (clip_norm h))) (expected_calls h n i)
     = (if (i + 1) mod acc_grad_steps h = 0 \<or> i + 1 = n then step_calls (clip_norm h) else [])"
  by (simp add: step_calls_def expected_calls_def eval_calls_def)

lemma Backward_in_prefix:
  assumes "prefix pre (expected_calls h n i)" and "pre \<noteq> []"
  shows "Backward \<in> set pre"
proof -
  from assms obtain k ks where "pre = k # ks" by (cases pre) auto
  with assms(1) show ?thesis
    by (auto simp: expected_calls_def prefix_def)
qed

lemma Backward_in_expected: "Backward \<in> set (expected_calls h n i)"
  by (simp add: expected_calls_def)

lemma ScalerStep_in_expected:
  "ScalerStep \<in> set (expected_calls h n i) \<longleftrightarrow> (i + 1) mod acc_grad_steps h = 0 \<or> i + 1 = n"
  by (simp add: expected_calls_def step_calls_def eval_calls_def)

lemma no_boundary_between:
  fixes a i j :: int
  assumes "(i + 1) mod a = 0" and "j < i" and "i - a < j"
  shows "(j + 1) mod a \<noteq> 0"
proof
  assume "(j + 1) mod a = 0"
  then have "a dvd j + 1"
    by (simp add: mod_eq_0_iff_dvd)
  moreover from assms(1) have "a dvd i + 1"
    by (simp add: mod_eq_0_iff_dvd)
  ultimately have "a dvd (i + 1) - (j + 1)"
    by (simp only: dvd_diff)
  then have "a dvd i - j" by simp
  moreover have "0 < i - j" "i - j < a" using assms by simp_all
  ultimately show False
    using zdvd_not_zless by blast
qed

subsection \<open>Termination of the paired iteration\<close>

lemma train_empty_val:
  assumes "tdl \<noteq> []"
  shows "train fw dbg tdl [] s = None"
proof -
  from assms obtain t ts where "tdl = t # ts" by (cases tdl) auto
  then show ?thesis
    by (simp add: train_def chain_next_empty)
qed

lemma train_nonempty_val:
  assumes "vdl \<noteq> []"
  shows "\<exists>ps. agg_iterable tdl vdl None = Some ps \<and> length ps = length tdl
           \<and> (\<forall>j < length tdl. ps ! j = (tdl ! j, vdl ! (j mod length vdl)))
           \<and> train_loop fw dbg (int (length tdl)) vdl 0 tdl None s
                = Some (train_pairs fw dbg (int (length tdl)) 0 ps s)
           \<and> (\<exists>out. train fw dbg tdl vdl s = Some out)"
proof -
  from agg_iterable_cycles [OF assms, of tdl] obtain ps where
    ps: "agg_iterable tdl vdl None = Some ps" "length ps = length tdl"
      "\<forall>j < length tdl. ps ! j = (tdl ! j, vdl ! (j mod length vdl))"
    by blast
  have l: "train_loop fw dbg (int (length tdl)) vdl 0 tdl None s
      = Some (train_pairs fw dbg (int (length tdl)) 0 ps s)"
    by (rule train_loop_pairs [OF ps(1)])
  then have "\<exists>out. train fw dbg tdl vdl s = Some out"
    by (cases "train_pairs fw dbg (int (length tdl)) 0 ps s") (simp_all add: train_def)
  with ps l show ?thesis by blast
qed

subsection \<open>One batch, seen from outside\<close>

lemma train_body_facts:
  fixes s :: "('t, 'o, 's) state"
  shows "\<exists>pre. new_calls (fst s) (fst (final_state (train_body fw dbg n i t v s)))
             = map (Pair (iters_so_far (snd s))) pre
      \<and> prefix pre (expected_calls (hps (snd s)) n i)
      \<and> (returned (train_body fw dbg n i t v s) \<longrightarrow> pre = expected_calls (hps (snd s)) n i)
      \<and> (\<not> dbg \<and> acc_grad_steps (hps (snd s)) \<noteq> 0 \<and> eval_every (hps (snd s)) \<noteq> 0
           \<and> (\<forall>d st. wandb_log fw d st) \<longrightarrow> returned (train_body fw dbg n i t v s))
      \<and> (\<not> ((i + 1) mod eval_every (hps (snd s)) = 0 \<or> i + 1 = n) \<longrightarrow>
            training (snd (final_state (train_body fw dbg n i t v s))) = training (snd s))
      \<and> (returned (train_body fw dbg n i t v s)
           \<and> ((i + 1) mod eval_every (hps (snd s)) = 0 \<or> i + 1 = n) \<longrightarrow>
            training (snd (final_state (train_body fw dbg n i t v s))))"
  using train_body_summary [where s = s and n = n and i = i and fw = fw and dbg = dbg
      and t = t and v = v]
  apply (elim exE conjE)
  subgoal for pre s3
    apply (rule exI [of _ pre])
    apply (cases "train_body fw dbg n i t v s")
     apply (auto simp: extends_def new_calls_def incr_iters_def)
    done
  done

lemma no_clipping_in_expected:
  assumes "clip_norm h \<le> 0" and "k \<in> set (expected_calls h n i)"
  shows "k \<noteq> Unscale \<and> k \<noteq> ClipGradNorm x"
  using assms by (auto simp: expected_calls_def step_calls_def eval_calls_def split: if_splits)

subsection \<open>Gradient accumulation\<close>

text \<open>
  C1. In a call of \<open>train\<close>, whatever its outcome, a call of the optimizer step (the
  unscaling and clipping when \<open>clip_norm\<close> is positive, the step and the update of the
  scaler, the zeroing of the gradients, the publishing of the training metrics) is made
  at the batch of index \<open>i\<close> only when \<open>(i + 1) mod acc_grad_steps = 0\<close> or \<open>i + 1\<close> is the
  length of the training loader. In a call that returns, the calls of the step made at
  an index are exactly these, in this order, at every such index, and none at any
  other index. With a positive \<open>acc_grad_steps\<close>, a step at an index that is not the
  last one comes after \<open>acc_grad_steps\<close> backward passes, at the indices
  \<open>i - acc_grad_steps + 1\<close> to \<open>i\<close>, with no step between them.
\<close>

theorem optimizer_step_exactly_at_boundaries:
  assumes "train fw dbg tdl vdl (w, c) = Some out"
  shows "(\<forall>i k. k \<in> set (step_calls (clip_norm (hps c)))
             \<and> k \<in> set (calls_at (iters_so_far c + i) (new_calls w (fst (final_state out))))
           \<longrightarrow> 0 \<le> i \<and> i < int (length tdl) \<and> acc_grad_steps (hps c) \<noteq> 0
               \<and> ((i + 1) mod acc_grad_steps (hps c) = 0 \<or> i + 1 = int (length tdl)))
     \<and> (returned out \<longrightarrow>
          (\<forall>i. 0 \<le> i \<and> i < int (length tdl) \<longrightarrow>
             filter (\<lambda>k. k \<in> set (step_calls (clip_norm (hps c))))
                 (calls_at (iters_so_far c + i) (new_calls w (fst (final_state out))))
               = (if (i + 1) mod acc_grad_steps (hps c) = 0 \<or> i + 1 = int (length tdl)
                  then step_calls (clip_norm (hps c)) else [])))
     \<and> (0 < acc_grad_steps (hps c) \<longrightarrow>
          (\<forall>i. ScalerStep \<in> set (calls_at (iters_so_far c + i) (new_calls w (fst (final_state out))))
                 \<and> i + 1 \<noteq> int (length tdl)
             \<longrightarrow> acc_grad_steps (hps c) \<le> i + 1
               \<and> (\<forall>j. i - acc_grad_steps (hps c) < j \<and> j \<le> i \<longrightarrow>
                      Backward \<in> set (calls_at (iters_so_far c + j) (new_calls w (fst (final_state out)))))
               \<and> (\<forall>j. i - acc_grad_steps (hps c) < j \<and> j < i \<longrightarrow>
                      ScalerStep \<notin> set (calls_at (iters_so_far c + j) (new_calls w (fst (final_state out)))))))"
proof -
  let ?h = "hps c" and ?a = "acc_grad_steps (hps c)" and ?n = "int (length tdl)"
  let ?ca = "\<lambda>i. calls_at (iters_so_far c + i) (new_calls w (fst (final_state out)))"
  let ?sc = "step_calls (clip_norm (hps c))"
  from calls_at_train [OF assms, unfolded fst_conv snd_conv]
  obtain m pre where m: "m \<le> length tdl"
    and ca: "\<forall>i. ?ca i = (if 0 \<le> i \<and> i < int m then expected_calls ?h ?n i
                else if i = int m then pre else [])"
    and ok: "0 < m \<longrightarrow> \<not> dbg \<and> ?a \<noteq> 0 \<and> eval_every ?h \<noteq> 0"
    and ret: "returned out \<longrightarrow> m = length tdl \<and> pre = []"
    and rai: "\<not> returned out \<longrightarrow> m < length tdl
            \<and> prefix pre (expected_calls ?h ?n (int m)) \<and> pre \<noteq> [] \<and> (?a = 0 \<longrightarrow> pre = [Backward])"
    by blast
  have pre_sub: "set pre \<subseteq> set (expected_calls ?h ?n (int m))" if "pre \<noteq> []"
    using that ret rai by (cases "returned out") (auto dest: set_mono_prefix)
  have in_E: "k \<in> set (expected_calls ?h ?n i) \<and> 0 \<le> i \<and> i < ?n" if "k \<in> set (?ca i)" for i k
  proof (cases "0 \<le> i \<and> i < int m")
    case True
    with that m show ?thesis by (auto simp: ca)
  next
    case False
    with that have i: "i = int m" and k: "k \<in> set pre"
      by (auto simp: ca split: if_splits)
    then have "pre \<noteq> []" by auto
    with pre_sub k i ret rai show ?thesis
      by (cases "returned out") auto
  qed
  have a_ne: "?a \<noteq> 0" if "k \<in> set (?ca i)" "k \<noteq> Backward" for i k
  proof (cases "0 \<le> i \<and> i < int m")
    case True
    with ok show ?thesis by auto
  next
    case False
    with that have "k \<in> set pre"
      by (auto simp: ca split: if_splits)
    with that(2) ret rai show ?thesis
      by (cases "returned out") auto
  qed
  have one: "0 \<le> i \<and> i < ?n \<and> ?a \<noteq> 0 \<and> ((i + 1) mod ?a = 0 \<or> i + 1 = ?n)"
    if "k \<in> set ?sc" "k \<in> set (?ca i)" for i k
  proof -
    have "k \<noteq> Backward"
      using that(1) by (auto simp: step_calls_def split: if_splits)
    with a_ne that(2) have "?a \<noteq> 0" by blast
    moreover from in_E [OF that(2)] step_calls_in_expected [of k "clip_norm ?h" ?h ?n i] that(1)
    have "0 \<le> i \<and> i < ?n \<and> ((i + 1) mod ?a = 0 \<or> i + 1 = ?n)"
      by simp
    ultimately show ?thesis by simp
  qed
  have two: "filter (\<lambda>k. k \<in> set ?sc) (?ca i) = (if (i + 1) mod ?a = 0 \<or> i + 1 = ?n then ?sc else [])"
    if "returned out" "0 \<le> i" "i < ?n" for i
    using that ret filter_step_calls_expected [of ?h ?n i]
    by (simp add: ca)
  have three: "?a \<le> i + 1
      \<and> (\<forall>j. i - ?a < j \<and> j \<le> i \<longrightarrow> Backward \<in> set (?ca j))
      \<and> (\<forall>j. i - ?a < j \<and> j < i \<longrightarrow> ScalerStep \<notin> set (?ca j))"
    if pos: "0 < ?a" and st: "ScalerStep \<in> set (?ca i)" and nl: "i + 1 \<noteq> ?n" for i
  proof -
    have "ScalerStep \<in> set ?sc"
      by (simp add: step_calls_def)
    from one [OF this st] nl have i: "0 \<le> i" "i < ?n" and md: "(i + 1) mod ?a = 0"
      by simp_all
    from md have "?a dvd i + 1"
      by (simp add: mod_eq_0_iff_dvd)
    with i(1) have le: "?a \<le> i + 1"
      by (intro zdvd_imp_le) simp_all
    have im: "i \<le> int m"
      using st by (auto simp: ca split: if_splits)
    have pre_ne: "pre \<noteq> []" if "i = int m"
      using st that by (auto simp: ca)
    have bw: "Backward \<in> set (?ca j)" if "i - ?a < j" "j \<le> i" for j
    proof (cases "j < int m")
      case True
      with that le show ?thesis
        by (simp add: ca Backward_in_expected)
    next
      case False
      with that im have j: "j = int m" "i = int m" by simp_all
      from pre_ne [OF j(2)] ret rai have "prefix pre (expected_calls ?h ?n (int m))" "pre \<noteq> []"
        by (cases "returned out"; simp)+
      then have "Backward \<in> set pre"
        by (rule Backward_in_prefix)
      then show ?thesis
        by (simp add: ca j)
    qed
    have ns: "ScalerStep \<notin> set (?ca j)" if "i - ?a < j" "j < i" for j
    proof -
      have "(j + 1) mod ?a \<noteq> 0"
        by (rule no_boundary_between [OF md that(2) that(1)])
      moreover have "j + 1 \<noteq> ?n" "0 \<le> j" "j < int m"
        using that i le im by simp_all
      ultimately show ?thesis
        by (simp add: ca ScalerStep_in_expected)
    qed
    from le bw ns show ?thesis by blast
  qed
  show ?thesis
    using one two three by blast
qed

theorem optimizer_step_exactly_at_boundaries_witness:
  "\<exists>out. train demo_fw False demo_train demo_val demo_state = Some out \<and> returned out
     \<and> filter (\<lambda>k. k \<in> set (step_calls 0))
         (calls_at 0 (new_calls (fst demo_state) (fst (final_state out)))) = []
     \<and> filter (\<lambda>k. k \<in> set (step_calls 0))
         (calls_at 1 (new_calls (fst demo_state) (fst (final_state out))))
         = [ScalerStep, ScalerUpdate, ZeroGrad, WandbLog ''train'']
     \<and> filter (\<lambda>k. k \<in> set (step_calls 0))
         (calls_at 2 (new_calls (fst demo_state) (fst (final_state out))))
         = [ScalerStep, ScalerUpdate, ZeroGrad, WandbLog ''train'']
     \<and> Backward \<in> set (calls_at 0 (new_calls (fst demo_state) (fst (final_state out))))
     \<and> Backward \<in> set (calls_at 1 (new_calls (fst demo_state) (fst (final_state out))))"
proof -
  obtain w c where s: "demo_state = (w, c)"
    by (cases demo_state)
  have c: "hps c = demo_hps" "iters_so_far c = 0"
    using demo_state_fields by (simp_all add: s)
  have h: "acc_grad_steps demo_hps = 2" "clip_norm demo_hps = 0" "int (length demo_train) = 3"
    by (simp_all add: demo_hps_def demo_train_def)
  obtain s2 where r: "train demo_fw False demo_train demo_val (w, c) = Some (Return s2)"
    using demo_train_returns by (auto simp: s)
  let ?tr = "new_calls w (fst (final_state (Return s2)))"
  from optimizer_step_exactly_at_boundaries [OF r]
  have f: "\<forall>i. 0 \<le> i \<and> i < 3 \<longrightarrow>
             filter (\<lambda>k. k \<in> set (step_calls 0)) (calls_at i ?tr)
               = (if (i + 1) mod 2 = 0 \<or> i + 1 = 3 then step_calls 0 else [])"
    and b: "\<forall>i. ScalerStep \<in> set (calls_at i ?tr) \<and> i + 1 \<noteq> 3
             \<longrightarrow> 2 \<le> i + 1 \<and> (\<forall>j. i - 2 < j \<and> j \<le> i \<longrightarrow> Backward \<in> set (calls_at j ?tr))"
    by (simp_all add: c h)
  from f have f0: "filter (\<lambda>k. k \<in> set (step_calls 0)) (calls_at 0 ?tr) = []"
    and f1: "filter (\<lambda>k. k \<in> set (step_calls 0)) (calls_at 1 ?tr) = step_calls 0"
    and f2: "filter (\<lambda>k. k \<in> set (step_calls 0)) (calls_at 2 ?tr) = step_calls 0"
    by simp_all
  have sc: "step_calls 0 = [ScalerStep, ScalerUpdate, ZeroGrad, WandbLog ''train'']"
    by (simp add: step_calls_def)
  have "ScalerStep \<in> set (filter (\<lambda>k. k \<in> set (step_calls 0)) (calls_at 1 ?tr))"
    by (simp only: f1) (simp add: sc)
  then have "ScalerStep \<in> set (calls_at 1 ?tr)"
    by simp
  moreover from b have "ScalerStep \<in> set (calls_at 1 ?tr) \<and> (1 :: int) + 1 \<noteq> 3
      \<longrightarrow> 2 \<le> (1 :: int) + 1 \<and> (\<forall>j. 1 - 2 < j \<and> j \<le> 1 \<longrightarrow> Backward \<in> set (calls_at j ?tr))"
    by (rule spec)
  ultimately have bj: "\<forall>j. - 1 < j \<and> j \<le> 1 \<longrightarrow> Backward \<in> set (calls_at j ?tr)"
    by simp
  have "Backward \<in> set (calls_at 0 ?tr)" "Backward \<in> set (calls_at 1 ?tr)"
    using bj [rule_format, of 0] bj [rule_format, of 1] by simp_all
  with r f0 f1 f2 show ?thesis
    by (intro exI [of _ "Return s2"]) (simp add: s sc)
qed

lemma load_state_dict_same_names:
  assumes "distinct (map fst sd)" and "map fst own = map fst sd"
  shows "load_state_dict own sd = Some sd"
proof -
  have len: "length own = length sd"
    using assms(2) by (metis length_map)
  have "map (\<lambda>(k, old). (k, case map_of sd k of Some t \<Rightarrow> t | None \<Rightarrow> old)) own = sd"
  proof (rule nth_equalityI)
    show "length (map (\<lambda>(k, old). (k, case map_of sd k of Some t \<Rightarrow> t | None \<Rightarrow> old)) own) = length sd"
      using len by simp
  next
    fix j
    assume "j < length (map (\<lambda>(k, old). (k, case map_of sd k of Some t \<Rightarrow> t | None \<Rightarrow> old)) own)"
    then have j: "j < length sd" "j < length own"
      using len by simp_all
    have "fst (own ! j) = fst (sd ! j)"
      using assms(2) j by (metis nth_map)
    moreover have "map_of sd (fst (sd ! j)) = Some (snd (sd ! j))"
      using assms(1) j(1) by (simp add: map_of_is_SomeI)
    ultimately show "map (\<lambda>(k, old). (k, case map_of sd k of Some t \<Rightarrow> t | None \<Rightarrow> old)) own ! j = sd ! j"
      using j by (simp add: case_prod_unfold)
  qed
  moreover have "list_all (\<lambda>k. k \<in> set (map fst sd)) (map fst own)"
    "list_all (\<lambda>k. k \<in> set (map fst own)) (map fst sd)"
    by (simp_all only: assms(2) list_all_iff) simp_all
  ultimately show ?thesis
    by (simp add: load_state_dict_def)
qed

text \<open>
  C2. Saving at epoch \<open>k\<close> under the directory \<open>p\<close> writes the state dictionary of the
  model, and nothing else, to the file \<open>model_<k>.tar\<close> under \<open>p\<close>. Loading the same
  \<open>p\<close> and \<open>k\<close> into a freshly constructed classifier, whose model has the same
  parameter names, returns with exactly the saved parameter values; the optimizer and
  the scaler of that classifier are the freshly constructed ones, whatever they were
  in the classifier that saved.
\<close>

theorem save_then_load_round_trip:
  assumes "distinct (map fst (params c))" and "map fst model0 = map fst (params c)"
  shows "\<exists>w1 w2 c0.
       save p k (w, c) = Return (w1, c)
     \<and> w1 = w\<lparr>files := (files w)(p @ [''model_'' @ str_int k @ ''.tar''] \<mapsto> params c)\<rparr>
     \<and> init fw dev h model0 w1 = (w2, c0)
     \<and> load p k (w2, c0) = Return (w2, c0\<lparr>params := params c\<rparr>)
     \<and> opt (c0\<lparr>params := params c\<rparr>) = adam fw model0 (lr h)
     \<and> scaler (c0\<lparr>params := params c\<rparr>) = grad_scaler fw (fp16 h)
     \<and> iters_so_far c0 = 0 \<and> epochs_so_far c0 = 0"
proof -
  define w1 where "w1 = w\<lparr>files := (files w)(model_path p k \<mapsto> params c)\<rparr>"
  obtain w2 c0 where i: "init fw dev h model0 w1 = (w2, c0)"
    by (cases "init fw dev h model0 w1")
  have f: "files w2 = files w1" "params c0 = model0" "opt c0 = adam fw model0 (lr h)"
    "scaler c0 = grad_scaler fw (fp16 h)" "iters_so_far c0 = 0" "epochs_so_far c0 = 0"
    using i by (auto simp: init_def Let_def)
  have "load_state_dict (params c0) (params c) = Some (params c)"
    using assms by (simp add: load_state_dict_same_names f)
  then have "load p k (w2, c0) = Return (w2, c0\<lparr>params := params c\<rparr>)"
    by (simp add: f w1_def)
  then show ?thesis
    using i f by (simp add: w1_def model_path_def)
qed

theorem save_then_load_round_trip_witness:
  "distinct (map fst [(''fc.weight'', 4 :: real), (''fc.bias'', 5)])
   \<and> map fst [(''fc.weight'', 0 :: real), (''fc.bias'', 0)]
        = map fst [(''fc.weight'', 4 :: real), (''fc.bias'', 5)]
   \<and> (\<exists>w1 w2 c0.
          save [''ckpt''] 3
            (demo_world, (snd demo_state)\<lparr>params := [(''fc.weight'', 4), (''fc.bias'', 5)], opt := 9, scaler := 8\<rparr>)
            = Return (w1, (snd demo_state)\<lparr>params := [(''fc.weight'', 4), (''fc.bias'', 5)], opt := 9, scaler := 8\<rparr>)
        \<and> files w1 [''ckpt'', ''model_3.tar''] = Some [(''fc.weight'', 4), (''fc.bias'', 5)]
        \<and> init demo_fw ''cpu'' demo_hps [(''fc.weight'', 0), (''fc.bias'', 0)] w1 = (w2, c0)
        \<and> load [''ckpt''] 3 (w2, c0) = Return (w2, c0\<lparr>params := [(''fc.weight'', 4), (''fc.bias'', 5)]\<rparr>)
        \<and> opt (c0\<lparr>params := [(''fc.weight'', 4), (''fc.bias'', 5)]\<rparr>) = 0
        \<and> scaler (c0\<lparr>params := [(''fc.weight'', 4), (''fc.bias'', 5)]\<rparr>) = 0)"
proof -
  let ?c = "(snd demo_state)\<lparr>params := [(''fc.weight'', 4), (''fc.bias'', 5)], opt := 9, scaler := 8\<rparr>"
  have d: "distinct (map fst (params ?c))"
    by simp
  have n: "map fst [(''fc.weight'', 0 :: real), (''fc.bias'', 0)] = map fst (params ?c)"
    by simp
  have s: "str_int 3 = ''3''"
    by code_simp
  have a: "adam demo_fw [(''fc.weight'', 0), (''fc.bias'', 0)] (lr demo_hps) = 0"
    "grad_scaler demo_fw (fp16 demo_hps) = 0"
    by (simp_all add: demo_fw_def)
  from save_then_load_round_trip [OF d n, where p = "[''ckpt'']" and k = 3 and w = demo_world
      and fw = demo_fw and dev = "''cpu''" and h = demo_hps]
  show ?thesis
    by (simp add: s a model_path_def del: load.simps) blast
qed

subsection \<open>Counters\<close>

text \<open>
  C3. A batch pair that the body of the loop processes to its end adds exactly one to
  \<open>iters_so_far\<close>, whatever its index and whether or not it stepped the optimizer or
  evaluated, and leaves \<open>epochs_so_far\<close>. A call of \<open>train\<close> that returns has added the
  number of training batches to \<open>iters_so_far\<close> and exactly one to \<open>epochs_so_far\<close>; a
  call that raises has added the number of batches completed before, and nothing to
  \<open>epochs_so_far\<close>. \<open>test\<close>, \<open>save\<close> and \<open>load\<close> leave both counters. So no operation
  ever decreases a counter.
\<close>

theorem counters_count_batches_and_epochs:
  "(train_body fw dbg n i t v s = Return s1 \<longrightarrow>
      iters_so_far (snd s1) = iters_so_far (snd s) + 1
      \<and> epochs_so_far (snd s1) = epochs_so_far (snd s))
   \<and> (train fw dbg tdl vdl s = Some (Return s2) \<longrightarrow>
      iters_so_far (snd s2) = iters_so_far (snd s) + int (length tdl)
      \<and> epochs_so_far (snd s2) = epochs_so_far (snd s) + 1)
   \<and> (train fw dbg tdl vdl s = Some (Raise e s3) \<longrightarrow>
      iters_so_far (snd s) \<le> iters_so_far (snd s3)
      \<and> iters_so_far (snd s3) < iters_so_far (snd s) + int (length tdl)
      \<and> epochs_so_far (snd s3) = epochs_so_far (snd s))
   \<and> iters_so_far (snd (final_state (test fw dl s))) = iters_so_far (snd s)
   \<and> epochs_so_far (snd (final_state (test fw dl s))) = epochs_so_far (snd s)
   \<and> iters_so_far (snd (final_state (save p k s))) = iters_so_far (snd s)
   \<and> epochs_so_far (snd (final_state (save p k s))) = epochs_so_far (snd s)
   \<and> iters_so_far (snd (final_state (load p k s))) = iters_so_far (snd s)
   \<and> epochs_so_far (snd (final_state (load p k s))) = epochs_so_far (snd s)"
proof -
  have body: "iters_so_far (snd s1) = iters_so_far (snd s) + 1
      \<and> epochs_so_far (snd s1) = epochs_so_far (snd s)"
    if "train_body fw dbg n i t v s = Return s1"
    using train_body_summary [where s = s and n = n and i = i and fw = fw and dbg = dbg
        and t = t and v = v] that
    by (auto simp: extends_def incr_iters_def)
  have ret: "iters_so_far (snd s2) = iters_so_far (snd s) + int (length tdl)
      \<and> epochs_so_far (snd s2) = epochs_so_far (snd s) + 1"
    if "train fw dbg tdl vdl s = Some (Return s2)"
    using train_summary [OF that] by auto
  have rai: "iters_so_far (snd s) \<le> iters_so_far (snd s3)
      \<and> iters_so_far (snd s3) < iters_so_far (snd s) + int (length tdl)
      \<and> epochs_so_far (snd s3) = epochs_so_far (snd s)"
    if "train fw dbg tdl vdl s = Some (Raise e s3)"
    using train_summary [OF that] by auto
  have sl: "iters_so_far (snd (final_state (save p k s))) = iters_so_far (snd s)
   \<and> epochs_so_far (snd (final_state (save p k s))) = epochs_so_far (snd s)
   \<and> iters_so_far (snd (final_state (load p k s))) = iters_so_far (snd s)
   \<and> epochs_so_far (snd (final_state (load p k s))) = epochs_so_far (snd s)"
    by (cases s) (simp split: option.splits)
  show ?thesis
    using body ret rai sl test_keeps [of fw dl s] by blast
qed

theorem counters_count_batches_and_epochs_witness:
  "(\<exists>s1. train_body demo_fw False 3 0 (1, True) (1 / 2, True) demo_state = Return s1
        \<and> iters_so_far (snd s1) = 1 \<and> epochs_so_far (snd s1) = 0)
   \<and> (\<exists>s2. train demo_fw False demo_train demo_val demo_state = Some (Return s2)
        \<and> iters_so_far (snd s2) = 3 \<and> epochs_so_far (snd s2) = 1)
   \<and> (\<exists>s3. train demo_fw_val_down False demo_train demo_val demo_state
               = Some (Raise ConnectionError s3)
        \<and> 0 \<le> iters_so_far (snd s3) \<and> iters_so_far (snd s3) < 3 \<and> epochs_so_far (snd s3) = 0)"
proof -
  obtain s1 where b: "train_body demo_fw False 3 0 (1, True) (1 / 2, True) demo_state = Return s1"
    using demo_train_body_returns by blast
  obtain s2 where r: "train demo_fw False demo_train demo_val demo_state = Some (Return s2)"
    using demo_train_returns by blast
  obtain s3 where x: "train demo_fw_val_down False demo_train demo_val demo_state
      = Some (Raise ConnectionError s3)"
    using demo_train_raises by blast
  have n: "int (length demo_train) = 3"
    by (simp add: demo_train_def)
  from counters_count_batches_and_epochs
    [where fw = demo_fw and dbg = False and n = 3 and i = 0 and t = "(1, True)"
       and v = "(1 / 2, True)" and s = demo_state and ?s1.0 = s1 and tdl = demo_train
       and vdl = demo_val and ?s2.0 = s2] b r
  have 1: "iters_so_far (snd s1) = 1 \<and> epochs_so_far (snd s1) = 0"
    "iters_so_far (snd s2) = 3 \<and> epochs_so_far (snd s2) = 1"
    by (simp_all add: demo_state_fields n)
  from counters_count_batches_and_epochs
    [where fw = demo_fw_val_down and dbg = False and s = demo_state and tdl = demo_train
       and vdl = demo_val and e = ConnectionError and ?s3.0 = s3] x
  have 2: "0 \<le> iters_so_far (snd s3) \<and> iters_so_far (snd s3) < 3 \<and> epochs_so_far (snd s3) = 0"
    by (simp add: demo_state_fields n)
  from b r x 1 2 show ?thesis
    by (intro conjI exI [of _ s1] exI [of _ s2] exI [of _ s3]) simp_all
qed

subsection \<open>Predicted classes\<close>

lemma send_to_dash_accepted:
  "wandb_log fw (wandb_dict_of m mode (epochs_so_far c)) (iters_so_far c) \<Longrightarrow>
     send_to_dash fw m mode (w, c)
       = Return (w\<lparr>calls := calls w @ [(iters_so_far c, WandbLog mode)],
                  dash := dash w @ [(wandb_dict_of m mode (epochs_so_far c), iters_so_far c)]\<rparr>, c)"
  by (simp add: Let_def)

text \<open>
  C4. The class predicted from a logit is 1 when the logit is greater than zero and 0
  otherwise, so that the logits -1, 0 and 0.5 give the classes 0, 0 and 1 (and a NaN
  gives 0). The validation block of \<open>train\<close> and the body of \<open>test\<close> both hand
  \<open>compute_classif_eval_metrics\<close> the classes obtained by this one rule from the logits
  of the model in evaluation mode, as the record that each of them publishes shows.
\<close>

theorem predictions_thresholded_at_zero:
  assumes "\<forall>d st. wandb_log fw d st"
  shows "gt_zero_long [Finite (- 1), Finite 0, Finite (1 / 2)] = [0, 0, 1]
     \<and> length (gt_zero_long logits) = length logits
     \<and> (\<forall>j < length logits. gt_zero_long logits ! j = (if gt_zero (logits ! j) then 1 else 0))
     \<and> (\<forall>r. gt_zero (Finite r) \<longleftrightarrow> 0 < r) \<and> \<not> gt_zero NaN
     \<and> (let pred = model_call fw False Nullcontext (params c) x;
             classes = map (\<lambda>l. if gt_zero l then 1 else 0) pred;
             m = foldl (\<lambda>d (k, v). AList.update k v d) [(''loss'', criterion fw pred y)]
                   (compute_classif_eval_metrics fw y classes)
         in dash (fst (final_state (val_block fw x y (w, c))))
              = dash w @ [(wandb_dict_of m ''val'' (epochs_so_far c), iters_so_far c)]
          \<and> dash (fst (final_state (test_body fw x y (w, c\<lparr>training := False\<rparr>))))
              = dash w @ [(wandb_dict_of m ''test'' (epochs_so_far c), iters_so_far c)])"
proof -
  have a: "gt_zero_long [Finite (- 1), Finite 0, Finite (1 / 2)] = [0, 0, 1]"
    by (simp add: gt_zero_long_def)
  have b: "length (gt_zero_long logits) = length logits
     \<and> (\<forall>j < length logits. gt_zero_long logits ! j = (if gt_zero (logits ! j) then 1 else 0))"
    by (simp add: gt_zero_long_def)
  have ok: "wandb_log fw d st" for d st
    using assms by simp
  have v: "dash (fst (final_state (val_block fw x y (w, c))))
      = dash w @ [(wandb_dict_of
          (foldl (\<lambda>d (k, v). AList.update k v d)
             [(''loss'', criterion fw (model_call fw False Nullcontext (params c) x) y)]
             (compute_classif_eval_metrics fw y
                (map (\<lambda>l. if gt_zero l then 1 else 0) (model_call fw False Nullcontext (params c) x))))
          ''val'' (epochs_so_far c), iters_so_far c)]"
    by (simp add: val_block_def compute_loss_def Let_def gt_zero_long_def send_to_dash_accepted ok
          del: send_to_dash.simps)
  have t: "dash (fst (final_state (test_body fw x y (w, c\<lparr>training := False\<rparr>))))
      = dash w @ [(wandb_dict_of
          (foldl (\<lambda>d (k, v). AList.update k v d)
             [(''loss'', criterion fw (model_call fw False Nullcontext (params c) x) y)]
             (compute_classif_eval_metrics fw y
                (map (\<lambda>l. if gt_zero l then 1 else 0) (model_call fw False Nullcontext (params c) x))))
          ''test'' (epochs_so_far c), iters_so_far c)]"
    by (simp add: test_body_def compute_loss_def Let_def gt_zero_long_def send_to_dash_accepted ok
          del: send_to_dash.simps)
  show ?thesis
    using a b v t by (simp add: Let_def)
qed

theorem predictions_thresholded_at_zero_witness:
  "(\<forall>d st. wandb_log demo_fw d st)
   \<and> gt_zero_long [Finite (- 1), Finite 0, Finite (1 / 2)] = [0, 0, 1]
   \<and> gt_zero_long [Finite 3, NaN, NegInf, PosInf] ! 0 = 1
   \<and> dash (fst (final_state (val_block demo_fw (1 / 2) True demo_state)))
        = [([(''val/loss'', Scalar (Finite 1)), (''val/acc'', Scalar (Finite 1)), (''epoch'', Count 0)], 0)]"
proof -
  have h: "\<forall>d st. wandb_log demo_fw d st"
    by (simp add: demo_fw_def)
  have m: "compute_classif_eval_metrics demo_fw = (\<lambda>y pred. [(''acc'', Finite 1)])"
    "criterion demo_fw = (\<lambda>pred y. Finite 1)"
    by (simp_all add: demo_fw_def)
  from predictions_thresholded_at_zero
    [OF h, where logits = "[Finite 3, NaN, NegInf, PosInf]" and c = "snd demo_state"
       and w = "fst demo_state" and x = "1 / 2" and y = True]
  show ?thesis
    using h by (simp add: Let_def demo_state_fields m wandb_dict_of_def)
qed

subsection \<open>The cycled validation loader\<close>

text \<open>
  C5, as stated, at a validation loader that yields no batch, which is fewer than the
  three of the training loader: the iteration yields no pair and \<open>train\<close> does not
  return.
\<close>

theorem empty_validation_loader_never_paired:
  "length ([] :: (real \<times> bool) list) < length demo_train
   \<and> agg_iterable demo_train ([] :: (real \<times> bool) list) None = None
   \<and> train demo_fw False demo_train [] demo_state = None"
proof -
  have "demo_train \<noteq> []"
    by (simp add: demo_train_def)
  then have "train demo_fw False demo_train [] demo_state = None"
    by (rule train_empty_val)
  then show ?thesis
    by (simp add: demo_train_def chain_next_empty)
qed

text \<open>
  C5, amended. When the validation loader yields at least one batch, it is started
  again each time it is exhausted: the iteration yields exactly as many pairs as there
  are training batches, the pair of index \<open>j\<close> being the training batch \<open>j\<close> with the
  validation batch \<open>j mod len(val)\<close>; the loop runs its body on these pairs in order,
  no exhaustion error is raised, and a call that returns has processed as many pairs
  as there are training batches.
\<close>

theorem validation_loader_cycled:
  assumes "vdl \<noteq> []"
  shows "\<exists>ps out. agg_iterable tdl vdl None = Some ps \<and> length ps = length tdl
           \<and> (\<forall>j < length tdl. ps ! j = (tdl ! j, vdl ! (j mod length vdl)))
           \<and> train_loop fw dbg (int (length tdl)) vdl 0 tdl None s
                = Some (train_pairs fw dbg (int (length tdl)) 0 ps s)
           \<and> train fw dbg tdl vdl s = Some out
           \<and> (returned out \<longrightarrow>
                iters_so_far (snd (final_state out)) = iters_so_far (snd s) + int (length tdl))"
proof -
  from train_nonempty_val [OF assms, of tdl fw dbg s] obtain ps out where
    ps: "agg_iterable tdl vdl None = Some ps" "length ps = length tdl"
      "\<forall>j < length tdl. ps ! j = (tdl ! j, vdl ! (j mod length vdl))"
      "train_loop fw dbg (int (length tdl)) vdl 0 tdl None s
         = Some (train_pairs fw dbg (int (length tdl)) 0 ps s)"
    and out: "train fw dbg tdl vdl s = Some out"
    by blast
  have "iters_so_far (snd (final_state out)) = iters_so_far (snd s) + int (length tdl)"
    if "returned out"
    using train_summary [OF out] that by (cases out) auto
  with ps out show ?thesis by blast
qed

theorem validation_loader_cycled_witness:
  "demo_val \<noteq> [] \<and> length demo_val < length demo_train
   \<and> agg_iterable demo_train demo_val None
       = Some [((1, True), (1 / 2, True)), ((- 2, False), (- 1, False)), ((3, True), (1 / 2, True))]
   \<and> (\<exists>out. train demo_fw False demo_train demo_val demo_state = Some out \<and> returned out
         \<and> iters_so_far (snd (final_state out)) = 3)"
proof -
  have n: "demo_val \<noteq> []" "length demo_val < length demo_train"
    by (simp_all add: demo_train_def demo_val_def)
  from validation_loader_cycled [OF n(1), of demo_train demo_fw False demo_state]
  obtain ps out where ps: "agg_iterable demo_train demo_val None = Some ps"
      "length ps = length demo_train"
      "\<forall>j < length demo_train. ps ! j = (demo_train ! j, demo_val ! (j mod length demo_val))"
    and out: "train demo_fw False demo_train demo_val demo_state = Some out"
      "returned out \<longrightarrow>
         iters_so_far (snd (final_state out)) = iters_so_far (snd demo_state) + int (length demo_train)"
    by blast
  have l: "length demo_train = 3" "length demo_val = 2"
    by (simp_all add: demo_train_def demo_val_def)
  have p: "ps ! j = (demo_train ! j, demo_val ! (j mod 2))" if "j < 3" for j
    using ps(3) that by (simp only: l)
  have "length ps = 3" "ps ! 0 = ((1, True), (1 / 2, True))"
    "ps ! 1 = ((- 2, False), (- 1, False))" "ps ! 2 = ((3, True), (1 / 2, True))"
    using ps(2) p [of 0] p [of 1] p [of 2] by (simp_all add: l) (simp_all add: demo_train_def demo_val_def)
  moreover from this(1) obtain a b c where "ps = [a, b, c]"
    by (auto simp: numeral_3_eq_3 length_Suc_conv)
  ultimately have "ps = [((1, True), (1 / 2, True)), ((- 2, False), (- 1, False)), ((3, True), (1 / 2, True))]"
    by simp
  moreover have "returned out"
    using demo_train_returns out(1) by auto
  ultimately show ?thesis
    using n ps(1) out by (auto simp: demo_state_fields demo_train_def)
qed

subsection \<open>Clipping disabled\<close>

text \<open>
  C6. With \<open>clip_norm \<le> 0\<close> the construction goes through and only logs that clipping is
  disabled, before the summary of the model. A classifier with this configuration
  never calls the clipping routine nor the unscaling that goes with it: not in one
  batch, whatever its outcome, and not in a whole call of \<open>train\<close>. The batch itself
  completes when nothing else stops it (no debug flag, divisors that are not zero, a
  dashboard that accepts the records).
\<close>

theorem no_clipping_when_clip_norm_not_positive:
  assumes "clip_norm h \<le> 0"
  shows "(\<exists>w' c'. init fw dev h model0 w = (w', c') \<and> hps c' = h
            \<and> logs w' = logs w @ [ClipNormDisabled (clip_norm h), ModuleInfo ''classifier_model''])
     \<and> (hps (snd s) = h \<longrightarrow>
          (\<forall>u x. (u, Unscale) \<notin> set (new_calls (fst s) (fst (final_state (train_body fw dbg n i t v s))))
               \<and> (u, ClipGradNorm x) \<notin> set (new_calls (fst s) (fst (final_state (train_body fw dbg n i t v s))))))
     \<and> (hps (snd s) = h \<and> \<not> dbg \<and> acc_grad_steps h \<noteq> 0 \<and> eval_every h \<noteq> 0
           \<and> (\<forall>d st. wandb_log fw d st) \<longrightarrow> returned (train_body fw dbg n i t v s))
     \<and> (hps (snd s) = h \<and> train fw dbg tdl vdl s = Some out \<longrightarrow>
          (\<forall>u x. (u, Unscale) \<notin> set (new_calls (fst s) (fst (final_state out)))
               \<and> (u, ClipGradNorm x) \<notin> set (new_calls (fst s) (fst (final_state out)))))"
proof -
  have i: "\<exists>w' c'. init fw dev h model0 w = (w', c') \<and> hps c' = h
            \<and> logs w' = logs w @ [ClipNormDisabled (clip_norm h), ModuleInfo ''classifier_model'']"
    using assms by (simp add: init_def Let_def)
  have b: "(u, Unscale) \<notin> set (new_calls (fst s) (fst (final_state (train_body fw dbg n i t v s))))
       \<and> (u, ClipGradNorm x) \<notin> set (new_calls (fst s) (fst (final_state (train_body fw dbg n i t v s))))"
    if "hps (snd s) = h" for u x
  proof -
    from train_body_facts [of s fw dbg n i t v] obtain pre where
      "new_calls (fst s) (fst (final_state (train_body fw dbg n i t v s)))
         = map (Pair (iters_so_far (snd s))) pre"
      "prefix pre (expected_calls (hps (snd s)) n i)"
      by blast
    then show ?thesis
      using no_clipping_in_expected [OF assms, of _ n i] that
      by (auto dest!: set_mono_prefix)
  qed
  have r: "returned (train_body fw dbg n i t v s)"
    if "hps (snd s) = h \<and> \<not> dbg \<and> acc_grad_steps h \<noteq> 0 \<and> eval_every h \<noteq> 0
           \<and> (\<forall>d st. wandb_log fw d st)"
    using train_body_facts [of s fw dbg n i t v] that by blast
  have t: "(u, Unscale) \<notin> set (new_calls (fst s) (fst (final_state out)))
       \<and> (u, ClipGradNorm x) \<notin> set (new_calls (fst s) (fst (final_state out)))"
    if h: "hps (snd s) = h" and tr: "train fw dbg tdl vdl s = Some out" for u x
  proof -
    let ?tr = "new_calls (fst s) (fst (final_state out))"
    from calls_at_train [OF tr] obtain m pre where
      ca: "\<forall>j. calls_at (iters_so_far (snd s) + j) ?tr
             = (if 0 \<le> j \<and> j < int m then expected_calls (hps (snd s)) (int (length tdl)) j
                else if j = int m then pre else [])"
      and ret: "returned out \<longrightarrow> m = length tdl \<and> pre = []"
      and rai: "\<not> returned out \<longrightarrow> m < length tdl
            \<and> prefix pre (expected_calls (hps (snd s)) (int (length tdl)) (int m)) \<and> pre \<noteq> []
            \<and> (acc_grad_steps (hps (snd s)) = 0 \<longrightarrow> pre = [Backward])"
      by blast
    have sub: "k \<in> set (expected_calls h (int (length tdl)) (int m))" if "k \<in> set pre" for k
      using that ret rai h by (cases "returned out") (auto dest: set_mono_prefix)
    have "k \<noteq> Unscale \<and> k \<noteq> ClipGradNorm x" if "(u, k) \<in> set ?tr" for k
    proof -
      let ?j = "u - iters_so_far (snd s)"
      from ca have "calls_at (iters_so_far (snd s) + ?j) ?tr
             = (if 0 \<le> ?j \<and> ?j < int m then expected_calls (hps (snd s)) (int (length tdl)) ?j
                else if ?j = int m then pre else [])"
        by (rule spec)
      then have "calls_at u ?tr
             = (if 0 \<le> ?j \<and> ?j < int m then expected_calls h (int (length tdl)) ?j
                else if ?j = int m then pre else [])"
        by (simp add: h)
      moreover from that have "k \<in> set (calls_at u ?tr)"
        by (simp add: set_calls_at)
      ultimately have "k \<in> set (expected_calls h (int (length tdl)) ?j) \<or> k \<in> set pre"
        by (auto split: if_splits)
      then obtain j where "k \<in> set (expected_calls h (int (length tdl)) j)"
        using sub by blast
      then show ?thesis
        by (rule no_clipping_in_expected [OF assms])
    qed
    then show ?thesis by blast
  qed
  show ?thesis
    using i b r t by blast
qed

theorem no_clipping_when_clip_norm_not_positive_witness:
  "clip_norm demo_hps \<le> 0
   \<and> logs (fst demo_state) = [ClipNormDisabled 0, ModuleInfo ''classifier_model'']
   \<and> returned (train_body demo_fw False 3 0 (1, True) (1 / 2, True) demo_state)
   \<and> (\<exists>out. train demo_fw False demo_train demo_val demo_state = Some out \<and> returned out
         \<and> (1, Unscale) \<notin> set (new_calls (fst demo_state) (fst (final_state out)))
         \<and> (1, ClipGradNorm 0) \<notin> set (new_calls (fst demo_state) (fst (final_state out)))
         \<and> (1, ScalerStep) \<in> set (new_calls (fst demo_state) (fst (final_state out))))"
proof -
  have c: "clip_norm demo_hps \<le> 0"
    by (simp add: demo_hps_def)
  have h: "hps (snd demo_state) = demo_hps" "\<not> False" "acc_grad_steps demo_hps \<noteq> 0"
    "eval_every demo_hps \<noteq> 0" "\<forall>d st. wandb_log demo_fw d st"
    by (simp_all add: demo_state_fields demo_hps_def demo_fw_def)
  obtain s2 where r: "train demo_fw False demo_train demo_val demo_state = Some (Return s2)"
    using demo_train_returns by blast
  have st: "(1, ScalerStep) \<in> set (new_calls (fst demo_state) (fst s2))"
  proof -
    have "case train demo_fw False demo_train demo_val demo_state of
            Some out \<Rightarrow> (1, ScalerStep) \<in> set (new_calls (fst demo_state) (fst (final_state out)))
          | None \<Rightarrow> False"
      by code_simp
    with r show ?thesis by simp
  qed
  from no_clipping_when_clip_norm_not_positive
    [OF c, where fw = demo_fw and dev = "''cpu''" and w = demo_world and s = demo_state
       and ?model0.0 = "[(''fc.weight'', 0), (''fc.bias'', 0)]" and dbg = False and n = 3 and i = 0
       and t = "(1, True)" and v = "(1 / 2, True)" and tdl = demo_train and vdl = demo_val
       and out = "Return s2"] h r
  have "logs (fst demo_state) = logs demo_world @ [ClipNormDisabled (clip_norm demo_hps), ModuleInfo ''classifier_model'']"
    and "returned (train_body demo_fw False 3 0 (1, True) (1 / 2, True) demo_state)"
    and "\<forall>u x. (u, Unscale) \<notin> set (new_calls (fst demo_state) (fst s2))
               \<and> (u, ClipGradNorm x) \<notin> set (new_calls (fst demo_state) (fst s2))"
    by (auto simp: demo_state_def)
  with c r st show ?thesis
    by (intro conjI exI [of _ "Return s2"]) (simp_all add: demo_world_def demo_hps_def)
qed

subsection \<open>Checkpoints\<close>

text \<open>
  C9. \<open>save\<close> leaves the object as it is, and \<open>load\<close> changes nothing of it but the
  parameters of the model (nothing at all when it raises), whatever the epoch argument
  is: the argument only names the file, and the counters \<open>iters_so_far\<close> and
  \<open>epochs_so_far\<close> of the object keep their values. \<open>load\<close> leaves the world as it is.
\<close>

theorem save_load_keep_counters:
  "snd (final_state (save p k (w, c))) = c
   \<and> returned (save p k (w, c))
   \<and> fst (final_state (load p k (w, c))) = w
   \<and> snd (final_state (load p k (w, c)))
        = c\<lparr>params := params (snd (final_state (load p k (w, c))))\<rparr>
   \<and> iters_so_far (snd (final_state (load p k (w, c)))) = iters_so_far c
   \<and> epochs_so_far (snd (final_state (load p k (w, c)))) = epochs_so_far c
   \<and> iters_so_far (snd (final_state (save p k (w, c)))) = iters_so_far c
   \<and> epochs_so_far (snd (final_state (save p k (w, c)))) = epochs_so_far c"
  by (simp split: option.splits)

theorem save_load_keep_counters_witness:
  "epochs_so_far (snd demo_state) = 0
   \<and> returned (load [''ckpt''] 7 (final_state (save [''ckpt''] 7 demo_state)))
   \<and> epochs_so_far (snd (final_state (load [''ckpt''] 7 (final_state (save [''ckpt''] 7 demo_state))))) = 0
   \<and> iters_so_far (snd (final_state (load [''ckpt''] 7 (final_state (save [''ckpt''] 7 demo_state))))) = 0"
proof -
  obtain w c where s: "demo_state = (w, c)"
    by (cases demo_state)
  have c: "epochs_so_far c = 0" "iters_so_far c = 0"
      "params c = [(''fc.weight'', 0), (''fc.bias'', 0)]"
    using demo_state_fields by (simp_all add: s)
  have "returned (load [''ckpt''] 7 (final_state (save [''ckpt''] 7 (w, c))))"
    by (simp add: c load_state_dict_def)
  then show ?thesis
    using save_load_keep_counters
      [of "[''ckpt'']" 7 "w\<lparr>files := (files w)(model_path [''ckpt''] 7 \<mapsto> params c)\<rparr>" c]
    by (simp add: s c)
qed

text \<open>
  C10. With a training loader that is not empty, \<open>train\<close> comes to an end (it returns
  or raises) exactly when the validation loader yields at least one batch: over an
  empty validation loader the chain neither yields an element nor stops, no pair is
  ever produced, and \<open>train\<close> does not return.
\<close>

theorem train_ends_iff_validation_loader_yields:
  assumes "tdl \<noteq> []"
  shows "(vdl \<noteq> [] \<longrightarrow> (\<exists>out. train fw dbg tdl vdl s = Some out))
     \<and> (vdl = [] \<longrightarrow> chain_next vdl None = None \<and> agg_iterable tdl vdl None = None
           \<and> train fw dbg tdl vdl s = None)"
proof -
  from assms obtain t ts where t: "tdl = t # ts" by (cases tdl) auto
  have "chain_next vdl None = None \<and> agg_iterable tdl vdl None = None
      \<and> train fw dbg tdl vdl s = None" if "vdl = []"
    using that train_empty_val [OF assms, of fw dbg s] by (simp add: t chain_next_empty)
  then show ?thesis
    using train_nonempty_val [of vdl tdl fw dbg s] by blast
qed

theorem train_ends_iff_validation_loader_yields_witness:
  "demo_train \<noteq> [] \<and> demo_val \<noteq> []
   \<and> (\<exists>out. train demo_fw False demo_train demo_val demo_state = Some out)
   \<and> train demo_fw False demo_train [] demo_state = None"
proof -
  have n: "demo_train \<noteq> []" "demo_val \<noteq> []"
    by (simp_all add: demo_train_def demo_val_def)
  from train_ends_iff_validation_loader_yields [OF n(1), of demo_val demo_fw False demo_state]
    train_ends_iff_validation_loader_yields [OF n(1), of "[]" demo_fw False demo_state] n
  show ?thesis by simp
qed

end
